theory Spec2Isabelle
  imports Main "HOL-Library.Sublist" "HOL-Library.Char_ord" "HOL-Library.List_Lexorder"
begin

section \<open>Python strings and paths\<close>

text \<open>
  Strings are byte lists. The scripts only ever inspect ASCII punctuation and letters of
  file names, so \<open>str.lower\<close> is modelled on the ASCII letters and leaves every other
  character as it is.
\<close>

definition lower_char :: "char \<Rightarrow> char" where
  "lower_char c =
     (case map_of (zip ''ABCDEFGHIJKLMNOPQRSTUVWXYZ'' ''abcdefghijklmnopqrstuvwxyz'') c of
        Some d \<Rightarrow> d
      | None \<Rightarrow> c)"

definition lower :: "string \<Rightarrow> string" where
  "lower s = map lower_char s"

text \<open>The Python test \<open>p in s\<close> on strings: \<open>p\<close> occurs in \<open>s\<close> as a contiguous block.\<close>

fun py_in :: "string \<Rightarrow> string \<Rightarrow> bool" where
  "py_in p [] = (p = [])"
| "py_in p (c # cs) = (prefix p (c # cs) \<or> py_in p cs)"

text \<open>\<open>s.split(c)\<close> for a one-character separator; the result is never empty.\<close>

fun split_char :: "char \<Rightarrow> string \<Rightarrow> string list" where
  "split_char c [] = [[]]"
| "split_char c (x # xs) =
     (if x = c then [] # split_char c xs
      else (case split_char c xs of
              [] \<Rightarrow> [[x]]
            | w # ws \<Rightarrow> (x # w) # ws))"

text \<open>\<open>s.endswith(t)\<close>.\<close>

definition endswith :: "string \<Rightarrow> string \<Rightarrow> bool" where
  "endswith s t = suffix t s"

text \<open>
  \<open>s.strip()\<close>: leading and trailing white space removed. White space in ASCII is
  tab, line feed, vertical tab, form feed, carriage return, the four separators
  0x1C to 0x1F and the blank.
\<close>

definition is_space :: "char \<Rightarrow> bool" where
  "is_space c = (of_char c \<in> {9, 10, 11, 12, 13, 28, 29, 30, 31, 32 :: nat})"

definition strip :: "string \<Rightarrow> string" where
  "strip s = rev (dropWhile is_space (rev (dropWhile is_space s)))"

text \<open>The two characters that cannot be written inside a string literal.\<close>

definition bs :: string where
  "bs = [CHR 0x5C]"

definition dq :: string where
  "dq = [CHR 0x22]"

definition is_sep :: "char \<Rightarrow> bool" where
  "is_sep c = (c = CHR 0x5C \<or> c = CHR ''/'')"

text \<open>
  The last component of a path: what follows the last separator. The scripts run on
  Windows paths, where both the backslash and the slash separate. This is
  \<open>os.path.basename\<close>, and \<open>Path(p).name\<close> for the paths the scripts build
  (absolute paths of files, which neither end in a separator nor consist of a drive only).
\<close>

definition os_path_basename :: "string \<Rightarrow> string" where
  "os_path_basename p = rev (takeWhile (\<lambda>c. \<not> is_sep c) (rev p))"

definition path_name :: "string \<Rightarrow> string" where
  "path_name p = os_path_basename p"

text \<open>
  \<open>Path(p).stem\<close>: the name without its last suffix. With \<open>i\<close> the index of the last
  dot of the name, the suffix is cut when \<open>0 < i < len(name) - 1\<close>, and the name is
  returned whole otherwise (no dot, a leading dot only, or a trailing dot).
\<close>

definition rfind_dot :: "string \<Rightarrow> nat option" where
  "rfind_dot n =
     (if CHR ''.'' \<in> set n
      then Some (length n - 1 - length (takeWhile (\<lambda>c. c \<noteq> CHR ''.'') (rev n)))
      else None)"

definition path_stem :: "string \<Rightarrow> string" where
  "path_stem p =
     (let n = path_name p in
      case rfind_dot n of
        None \<Rightarrow> n
      | Some i \<Rightarrow> if 0 < i \<and> i + 1 < length n then take i n else n)"

text \<open>
  \<open>os.path.join(d, f)\<close> for a relative \<open>f\<close>: a separator is inserted unless \<open>d\<close> is
  empty or already ends in one.
\<close>

definition os_path_join :: "string \<Rightarrow> string \<Rightarrow> string" where
  "os_path_join d f =
     (if d = [] \<or> is_sep (last d) then d @ f else d @ bs @ f)"

section \<open>ctbal-scrape-integration.py: resolving a state from a file name\<close>

text \<open>
  The dictionary \<open>state_patterns\<close> of \<open>extract_state_from_filename\<close>, as an
  association list in insertion order, which is the order \<open>items()\<close> iterates in.
\<close>

definition state_patterns :: "(string \<times> string) list" where
  "state_patterns =
    [(''alabama'', ''Alabama''), (''alaska'', ''Alaska''), (''arizona'', ''Arizona''),
     (''arkansas'', ''Arkansas''), (''california'', ''California''),
     (''colorado'', ''Colorado''), (''connecticut'', ''Connecticut''),
     (''delaware'', ''Delaware''), (''florida'', ''Florida''), (''georgia'', ''Georgia''),
     (''hawaii'', ''Hawaii''), (''idaho'', ''Idaho''), (''illinois'', ''Illinois''),
     (''indiana'', ''Indiana''), (''iowa'', ''Iowa''), (''kansas'', ''Kansas''),
     (''kentucky'', ''Kentucky''), (''louisiana'', ''Louisiana''), (''maine'', ''Maine''),
     (''maryland'', ''Maryland''), (''massachusetts'', ''Massachusetts''),
     (''michigan'', ''Michigan''), (''minnesota'', ''Minnesota''),
     (''mississippi'', ''Mississippi''), (''missouri'', ''Missouri''),
     (''montana'', ''Montana''), (''nebraska'', ''Nebraska''), (''nevada'', ''Nevada''),
     (''newhampshire'', ''New Hampshire''), (''newjersey'', ''New Jersey''),
     (''newmexico'', ''New Mexico''), (''newyork'', ''New York''),
     (''northcarolina'', ''North Carolina''), (''northdakota'', ''North Dakota''),
     (''ohio'', ''Ohio''), (''oklahoma'', ''Oklahoma''), (''oregon'', ''Oregon''),
     (''pennsylvania'', ''Pennsylvania''), (''rhodeisland'', ''Rhode Island''),
     (''southcarolina'', ''South Carolina''), (''southdakota'', ''South Dakota''),
     (''tennessee'', ''Tennessee''), (''texas'', ''Texas''), (''utah'', ''Utah''),
     (''vermont'', ''Vermont''), (''virginia'', ''Virginia''),
     (''washington'', ''Washington''), (''westvirginia'', ''West Virginia''),
     (''wisconsin'', ''Wisconsin''), (''wyoming'', ''Wyoming'')]"

text \<open>The loop over the items: the first key contained in the name decides.\<close>

fun first_pattern :: "(string \<times> string) list \<Rightarrow> string \<Rightarrow> string" where
  "first_pattern [] basename = ''Unknown''"
| "first_pattern ((pattern, state_name) # rest) basename =
     (if py_in pattern basename then state_name else first_pattern rest basename)"

definition extract_state_from_filename :: "string \<Rightarrow> string" where
  "extract_state_from_filename filename =
     first_pattern state_patterns (lower (path_stem filename))"

section \<open>The file system, the process and the external queue command\<close>

text \<open>
  The scripts read directories and never write. A path names a directory with its
  entries (in the order the operating system lists them), a plain file, or nothing.
\<close>

datatype node = Dir "string list" | File

type_synonym filesystem = "string \<rightharpoonup> node"

datatype py_error = FileNotFoundError string | NotADirectoryError string

text \<open>
  A captured stream of the command. \<open>Text t\<close>: its bytes decode to \<open>t\<close>. \<open>Garbled r\<close>: it
  holds bytes that strict decoding rejects, and \<open>r\<close> is what decoding with
  \<open>errors='replace'\<close> makes of them. A script that lets \<open>subprocess.run\<close> decode strictly
  (\<open>text=True\<close> alone) finds \<open>None\<close> in the place of a garbled stream: on Windows, where
  the scripts run, the thread that reads the pipe dies on the decoding error and leaves
  nothing. A script that passes \<open>errors='replace'\<close> always finds text.
\<close>

datatype captured = Text string | Garbled string

definition strict_text :: "captured \<Rightarrow> string option" where
  "strict_text c = (case c of Text t \<Rightarrow> Some t | Garbled r \<Rightarrow> None)"

definition replaced_text :: "captured \<Rightarrow> string" where
  "replaced_text c = (case c of Text t \<Rightarrow> t | Garbled r \<Rightarrow> r)"

text \<open>
  What \<open>subprocess.run\<close> gives back: a completed process with its return code and the
  captured standard output and standard error, or an exception with its text (the
  command could not be started; on POSIX, also a stream that strict decoding rejects).
\<close>

datatype run_result = Completed int captured captured | Raised string

record invocation =
  cmd :: string
  in_dir :: string

text \<open>
  The external queue system is an opaque state machine: a command run in a directory
  answers and moves the outside world on. Nothing is assumed about it.
\<close>

type_synonym 'w runner = "invocation \<Rightarrow> 'w \<Rightarrow> run_result \<times> 'w"

text \<open>One constructor for each message the scripts print, with the values it shows.\<close>

datatype line =
    Scanning
  | NoCsvFound
  | Found int
  | Listing string string
  | Transferring int
  | Adding string
  | Queued string
  | Out string
  | FailedToQueue string
  | Err string
  | ErrorTransferring string string
  | Summary int int int
  | CheckingStatus
  | ErrorCheckingStatus string
  | ProcessingQueue
  | ErrorProcessingQueue string
  | FullPipeline
  | Separator
  | UnknownCommand string
  | Usage
  | DirNotFound string
  | AddingAll
  | Searching string
  | Processing string
  | AddedOk string
  | AddFailed string
  | ExceptionOccurred string string
  | Hint
  | AddingState string string
  | FileLine string
  | StateQueued string
  | StateFailed string
  | ErrorProcessing string string

text \<open>
  The state of the running script: the outside world, the current working directory of
  the process, every command handed to \<open>subprocess.run\<close> so far and every message
  printed so far, both in order.
\<close>

record 'w process =
  world :: 'w
  cwd :: string
  calls :: "invocation list"
  printed :: "line list"

definition print :: "line \<Rightarrow> 'w process \<Rightarrow> 'w process" where
  "print l s = s\<lparr>printed := printed s @ [l]\<rparr>"

definition subprocess_run ::
  "'w runner \<Rightarrow> invocation \<Rightarrow> 'w process \<Rightarrow> run_result \<times> 'w process" where
  "subprocess_run run c s =
     (case run c (world s) of
        (r, w) \<Rightarrow> (r, s\<lparr>world := w, calls := calls s @ [c]\<rparr>))"

definition os_chdir :: "filesystem \<Rightarrow> string \<Rightarrow> 'w process \<Rightarrow> (py_error + unit) \<times> 'w process" where
  "os_chdir fs p s =
     (case fs p of
        None \<Rightarrow> (Inl (FileNotFoundError p), s)
      | Some File \<Rightarrow> (Inl (NotADirectoryError p), s)
      | Some (Dir names) \<Rightarrow> (Inr (), s\<lparr>cwd := p\<rparr>))"

definition os_path_exists :: "filesystem \<Rightarrow> string \<Rightarrow> bool" where
  "os_path_exists fs p = (fs p \<noteq> None)"

definition os_listdir :: "filesystem \<Rightarrow> string \<Rightarrow> py_error + string list" where
  "os_listdir fs p =
     (case fs p of
        None \<Rightarrow> Inl (FileNotFoundError p)
      | Some File \<Rightarrow> Inl (NotADirectoryError p)
      | Some (Dir names) \<Rightarrow> Inr names)"

text \<open>
  \<open>os.path.abspath(f)\<close> of a plain file name: the name joined to the current working
  directory (an absolute, normalised directory path, so nothing is left to normalise).
\<close>

definition os_path_abspath :: "'w process \<Rightarrow> string \<Rightarrow> string" where
  "os_path_abspath s f = os_path_join (cwd s) f"

subsection \<open>glob\<close>

text \<open>
  Shell-style matching of one name against one pattern: \<open>*\<close> stands for any run of
  characters and \<open>?\<close> for any one character. The patterns of the scripts use \<open>*\<close> only;
  bracket classes are not modelled.
\<close>

fun glob_match :: "string \<Rightarrow> string \<Rightarrow> bool" where
  "glob_match [] [] = True"
| "glob_match [] (c # cs) = False"
| "glob_match (p # ps) [] = (p = CHR ''*'' \<and> glob_match ps [])"
| "glob_match (p # ps) (c # cs) =
     (if p = CHR ''*'' then glob_match ps (c # cs) \<or> glob_match (p # ps) cs
      else (p = CHR ''?'' \<or> p = c) \<and> glob_match ps cs)"

text \<open>On Windows \<open>fnmatch\<close> compares the name and the pattern in lower case.\<close>

definition fnmatch :: "string \<Rightarrow> string \<Rightarrow> bool" where
  "fnmatch pattern nm = glob_match (lower pattern) (lower nm)"

definition ishidden :: "string \<Rightarrow> bool" where
  "ishidden p = (case p of [] \<Rightarrow> False | c # cs \<Rightarrow> c = CHR ''.'')"

text \<open>
  The names of a directory that match a pattern, in listing order; names that start
  with a dot are left out unless the pattern starts with one.
\<close>

definition glob1 :: "string list \<Rightarrow> string \<Rightarrow> string list" where
  "glob1 names pattern =
     filter (fnmatch pattern)
       (if ishidden pattern then names else filter (\<lambda>n. \<not> ishidden n) names)"

text \<open>
  \<open>glob.glob(pattern)\<close> for a pattern without a directory part: the matching names of
  the current working directory; a directory that cannot be listed matches nothing.
\<close>

definition glob_glob :: "filesystem \<Rightarrow> 'w process \<Rightarrow> string \<Rightarrow> string list" where
  "glob_glob fs s pattern =
     (case fs (cwd s) of
        Some (Dir names) \<Rightarrow> glob1 names pattern
      | _ \<Rightarrow> [])"

text \<open>
  \<open>glob.glob(os.path.join(d, pattern))\<close> for a literal directory \<open>d\<close>: the matching
  names of \<open>d\<close>, each joined to \<open>d\<close>; nothing when \<open>d\<close> is not a directory.
\<close>

definition glob_glob_in :: "filesystem \<Rightarrow> string \<Rightarrow> string \<Rightarrow> string list" where
  "glob_glob_in fs d pattern =
     (case fs d of
        Some (Dir names) \<Rightarrow> map (os_path_join d) (glob1 names pattern)
      | _ \<Rightarrow> [])"

section \<open>ctbal-scrape-integration.py\<close>

definition SCRAPE_A_GRAVE_PATH :: string where
  "SCRAPE_A_GRAVE_PATH =
     ''c:'' @ bs @ ''Users'' @ bs @ ''djman'' @ bs @ ''OneDrive'' @ bs @ ''Documents''
       @ bs @ ''GitHub'' @ bs @ ''scrape-a-grave''"

definition CTBAL_PROJECT_PATH :: string where
  "CTBAL_PROJECT_PATH =
     ''c:'' @ bs @ ''Users'' @ bs @ ''djman'' @ bs @ ''OneDrive'' @ bs @ ''Documents''
       @ bs @ ''GitHub'' @ bs @ ''ctbal''"

definition patterns :: "string list" where
  "patterns =
     [''us_recent_deaths_*.csv'', ''*_deaths.csv'', ''deaths_*.csv'',
      ''mortality_*.csv'', ''*_mortality.csv'']"

text \<open>
  \<open>list(set(csv_files))\<close> lists each distinct element once, in the iteration order of
  the set. For strings that order follows their hashes, which change from one run of the
  interpreter to the next, so it is a parameter of the model. \<open>set_order_ok\<close> is what
  every such order satisfies on a given list.
\<close>

type_synonym set_order = "string list \<Rightarrow> string list"

definition set_order_ok :: "set_order \<Rightarrow> string list \<Rightarrow> bool" where
  "set_order_ok order xs = (distinct (order xs) \<and> set (order xs) = set xs)"

text \<open>The loop \<open>for pattern in patterns: csv_files.extend(glob.glob(pattern))\<close>.\<close>

fun extend_matches ::
  "filesystem \<Rightarrow> 'w process \<Rightarrow> string list \<Rightarrow> string list \<Rightarrow> string list" where
  "extend_matches fs s [] csv_files = csv_files"
| "extend_matches fs s (pattern # rest) csv_files =
     extend_matches fs s rest (csv_files @ glob_glob fs s pattern)"

text \<open>
  \<open>find_state_csv_files\<close>, with the list of patterns taken out as an argument.
  \<open>os.chdir\<close> raises when the directory is missing, and nothing catches it.
\<close>

definition find_state_csv_files_with ::
  "string list \<Rightarrow> set_order \<Rightarrow> filesystem \<Rightarrow> 'w process
     \<Rightarrow> (py_error + string list) \<times> 'w process" where
  "find_state_csv_files_with pats order fs s =
     (case os_chdir fs SCRAPE_A_GRAVE_PATH s of
        (Inl e, s1) \<Rightarrow> (Inl e, s1)
      | (Inr u, s1) \<Rightarrow>
          (let csv_files = extend_matches fs s1 pats [];
               unique_files = order csv_files
           in (Inr (map (os_path_abspath s1) unique_files), s1)))"

definition find_state_csv_files ::
  "set_order \<Rightarrow> filesystem \<Rightarrow> 'w process \<Rightarrow> (py_error + string list) \<times> 'w process" where
  "find_state_csv_files = find_state_csv_files_with patterns"

definition queue_add_cmd :: "string \<Rightarrow> invocation" where
  "queue_add_cmd csv_file_path =
     \<lparr>cmd = ''npm run queue:add -- '' @ dq @ csv_file_path @ dq,
      in_dir = CTBAL_PROJECT_PATH\<rparr>"

text \<open>
  The text of the \<open>AttributeError\<close> that \<open>result.stdout.strip()\<close> raises when
  \<open>result.stdout\<close> is \<open>None\<close>.
\<close>

definition none_has_no_strip :: string where
  "none_has_no_strip =
     [CHR 0x27] @ ''NoneType'' @ [CHR 0x27] @ '' object has no attribute ''
       @ [CHR 0x27] @ ''strip'' @ [CHR 0x27]"

text \<open>
  \<open>transfer_csv_to_queue\<close>. The command runs with \<open>text=True\<close> and no \<open>errors=\<close>, so the
  streams are decoded strictly. The whole body is inside \<open>try\<close>: an exception of
  \<open>subprocess.run\<close>, and the \<open>AttributeError\<close> of \<open>strip\<close> on a stream that is \<open>None\<close>,
  both end in the handler, which prints the exception and returns \<open>False\<close>. The line
  printed before \<open>strip\<close> is called stays printed.
\<close>

definition transfer_csv_to_queue ::
  "'w runner \<Rightarrow> string \<Rightarrow> 'w process \<Rightarrow> bool \<times> 'w process" where
  "transfer_csv_to_queue run csv_file_path s =
     (case subprocess_run run (queue_add_cmd csv_file_path)
             (print (Adding (path_name csv_file_path)) s) of
        (Completed returncode out err, s1) \<Rightarrow>
          if returncode = 0
          then
            (let s2 = print (Queued (extract_state_from_filename csv_file_path)) s1
             in case strict_text out of
                  Some t \<Rightarrow> (True, print (Out (strip t)) s2)
                | None \<Rightarrow>
                    (False,
                     print (ErrorTransferring (path_name csv_file_path) none_has_no_strip) s2))
          else
            (let s2 = print (FailedToQueue (path_name csv_file_path)) s1
             in case strict_text err of
                  Some t \<Rightarrow> (False, print (Err (strip t)) s2)
                | None \<Rightarrow>
                    (False,
                     print (ErrorTransferring (path_name csv_file_path) none_has_no_strip) s2))
      | (Raised e, s1) \<Rightarrow>
          (False, print (ErrorTransferring (path_name csv_file_path) e) s1))"

text \<open>The first loop of \<open>batch_transfer_all_csvs\<close>: one line for each file found.\<close>

fun list_files :: "string list \<Rightarrow> 'w process \<Rightarrow> 'w process" where
  "list_files [] s = s"
| "list_files (csv_file # rest) s =
     list_files rest
       (print (Listing (path_name csv_file) (extract_state_from_filename csv_file)) s)"

text \<open>The second loop: every file is transferred, and the successes are counted.\<close>

fun transfer_all ::
  "'w runner \<Rightarrow> string list \<Rightarrow> int \<Rightarrow> 'w process \<Rightarrow> int \<times> 'w process" where
  "transfer_all run [] success_count s = (success_count, s)"
| "transfer_all run (csv_file # rest) success_count s =
     (case transfer_csv_to_queue run csv_file s of
        (ok, s1) \<Rightarrow>
          transfer_all run rest (if ok then success_count + 1 else success_count) s1)"

definition batch_transfer_all_csvs ::
  "'w runner \<Rightarrow> set_order \<Rightarrow> filesystem \<Rightarrow> 'w process
     \<Rightarrow> (py_error + unit) \<times> 'w process" where
  "batch_transfer_all_csvs run order fs s =
     (case find_state_csv_files order fs (print Scanning s) of
        (Inl e, s1) \<Rightarrow> (Inl e, s1)
      | (Inr csv_files, s1) \<Rightarrow>
          if csv_files = [] then (Inr (), print NoCsvFound s1)
          else
            (let n = int (length csv_files);
                 s2 = list_files csv_files (print (Found n) s1)
             in case transfer_all run csv_files 0 (print (Transferring n) s2) of
                  (success_count, s3) \<Rightarrow>
                    (Inr (), print (Summary success_count (n - success_count) n) s3)))"

definition show_queue_status :: "'w runner \<Rightarrow> 'w process \<Rightarrow> bool \<times> 'w process" where
  "show_queue_status run s =
     (case subprocess_run run \<lparr>cmd = ''npm run queue:status'', in_dir = CTBAL_PROJECT_PATH\<rparr>
             (print CheckingStatus s) of
        (Completed returncode out err, s1) \<Rightarrow> (returncode = 0, s1)
      | (Raised e, s1) \<Rightarrow> (False, print (ErrorCheckingStatus e) s1))"

definition process_queue :: "'w runner \<Rightarrow> 'w process \<Rightarrow> bool \<times> 'w process" where
  "process_queue run s =
     (case subprocess_run run
             \<lparr>cmd = ''npm run queue:process-all'', in_dir = CTBAL_PROJECT_PATH\<rparr>
             (print ProcessingQueue s) of
        (Completed returncode out err, s1) \<Rightarrow> (returncode = 0, s1)
      | (Raised e, s1) \<Rightarrow> (False, print (ErrorProcessingQueue e) s1))"

text \<open>\<open>main\<close>, with \<open>sys.argv\<close> as an argument.\<close>

definition main ::
  "'w runner \<Rightarrow> set_order \<Rightarrow> filesystem \<Rightarrow> string list \<Rightarrow> 'w process
     \<Rightarrow> (py_error + unit) \<times> 'w process" where
  "main run order fs argv s =
     (if length argv > 1 then
        (let command = lower (argv ! 1) in
         if command = ''transfer'' then batch_transfer_all_csvs run order fs s
         else if command = ''status'' then (Inr (), snd (show_queue_status run s))
         else if command = ''process'' then (Inr (), snd (process_queue run s))
         else if command = ''full'' then
           (case batch_transfer_all_csvs run order fs (print FullPipeline s) of
              (Inl e, s1) \<Rightarrow> (Inl e, s1)
            | (Inr u, s1) \<Rightarrow>
                (let s2 = snd (show_queue_status run (print Separator s1));
                     s3 = snd (process_queue run (print Separator s2))
                 in (Inr (), s3)))
         else (Inr (), print (UnknownCommand command) s))
      else (Inr (), print Usage s))"

section \<open>The tables of states\<close>

text \<open>
  One entry of the tables \<open>states\<close> of the two scripts that follow. The source's keys are \<open>abbreviation\<close>, \<open>name\<close> and
  \<open>location_id\<close>; the fields carry a prefix because the first is a reserved word here.
\<close>

record state_rec =
  st_abbreviation :: string
  st_name :: string
  st_location_id :: string

definition st :: "string \<Rightarrow> string \<Rightarrow> string \<Rightarrow> state_rec" where
  "st a n l = \<lparr>st_abbreviation = a, st_name = n, st_location_id = l\<rparr>"

text \<open>The table \<open>states\<close> of add-all-new-csvs.py; the script never reads it.\<close>

definition states_all :: "state_rec list" where
  "states_all =
     [st ''AL'' ''Alabama'' ''state_3'',
      st ''AK'' ''Alaska'' ''state_2'',
      st ''AZ'' ''Arizona'' ''state_5'',
      st ''AR'' ''Arkansas'' ''state_4'',
      st ''CA'' ''California'' ''state_6'',
      st ''CO'' ''Colorado'' ''state_7'',
      st ''CT'' ''Connecticut'' ''state_8'',
      st ''DE'' ''Delaware'' ''state_10'',
      st ''DC'' ''District of Columbia'' ''state_9'',
      st ''FL'' ''Florida'' ''state_11'',
      st ''GA'' ''Georgia'' ''state_12'',
      st ''HI'' ''Hawaii'' ''state_13'',
      st ''ID'' ''Idaho'' ''state_15'',
      st ''IL'' ''Illinois'' ''state_16'',
      st ''IN'' ''Indiana'' ''state_17'',
      st ''IA'' ''Iowa'' ''state_14'',
      st ''KS'' ''Kansas'' ''state_18'',
      st ''KY'' ''Kentucky'' ''state_19'',
      st ''LA'' ''Louisiana'' ''state_20'',
      st ''ME'' ''Maine'' ''state_22'',
      st ''MD'' ''Maryland'' ''state_23'',
      st ''MA'' ''Massachusetts'' ''state_21'',
      st ''MI'' ''Michigan'' ''state_24'',
      st ''MN'' ''Minnesota'' ''state_25'',
      st ''MS'' ''Mississippi'' ''state_27'',
      st ''MO'' ''Missouri'' ''state_26'',
      st ''MT'' ''Montana'' ''state_28'',
      st ''NE'' ''Nebraska'' ''state_31'',
      st ''NV'' ''Nevada'' ''state_35'',
      st ''NH'' ''New Hampshire'' ''state_32'',
      st ''NJ'' ''New Jersey'' ''state_33'',
      st ''NM'' ''New Mexico'' ''state_34'',
      st ''NY'' ''New York'' ''state_36'',
      st ''NC'' ''North Carolina'' ''state_29'',
      st ''ND'' ''North Dakota'' ''state_30'',
      st ''OH'' ''Ohio'' ''state_37'',
      st ''OK'' ''Oklahoma'' ''state_38'',
      st ''OR'' ''Oregon'' ''state_39'',
      st ''PA'' ''Pennsylvania'' ''state_40'',
      st ''PR'' ''Puerto Rico'' ''state_41'',
      st ''RI'' ''Rhode Island'' ''state_42'',
      st ''SC'' ''South Carolina'' ''state_43'',
      st ''SD'' ''South Dakota'' ''state_44'',
      st ''TN'' ''Tennessee'' ''state_45'',
      st ''TX'' ''Texas'' ''state_46'',
      st ''UT'' ''Utah'' ''state_47'',
      st ''VT'' ''Vermont'' ''state_49'',
      st ''VI'' ''Virgin Islands, U.S.'' ''country_273'',
      st ''VA'' ''Virginia'' ''state_48'',
      st ''WA'' ''Washington'' ''state_50'',
      st ''WV'' ''West Virginia'' ''state_52'',
      st ''WI'' ''Wisconsin'' ''state_51'',
      st ''WY'' ''Wyoming'' ''state_53'',
      st ''NYC'' ''New York City'' ''state_56'',
      st ''AS'' ''American Samoa'' ''state_57'',
      st ''GU'' ''Guam'' ''state_58'',
      st ''MP'' ''Northern Mariana Islands'' ''state_59'',
      st ''UM'' ''United States Minor Outlying Islands'' ''state_61'']"

section \<open>add-all-new-csvs.py\<close>

definition processed_csvs_dir :: string where
  "processed_csvs_dir =
     ''C:'' @ bs @ ''Users'' @ bs @ ''djman'' @ bs @ ''OneDrive'' @ bs @ ''Documents''
       @ bs @ ''GitHub'' @ bs @ ''scrape-a-grave'' @ bs @ ''processed_csvs''"

text \<open>
  \<open>add_csv_to_queue\<close>: the command runs in \<open>os.getcwd()\<close>, the current working
  directory of the script itself, and its streams are decoded with
  \<open>encoding='utf-8', errors='replace'\<close>.
\<close>

definition add_csv_to_queue ::
  "'w runner \<Rightarrow> string \<Rightarrow> string \<Rightarrow> 'w process \<Rightarrow> bool \<times> 'w process" where
  "add_csv_to_queue run csv_file_path state_abbrev s =
     (case subprocess_run run
             \<lparr>cmd = ''npm run queue:add -- '' @ dq @ csv_file_path @ dq, in_dir = cwd s\<rparr> s of
        (Completed returncode out err, s1) \<Rightarrow>
          if returncode = 0 then (True, print (AddedOk state_abbrev) s1)
          else (False,
                (let s2 = print (AddFailed state_abbrev) s1
                 in if replaced_text err \<noteq> []
                    then print (Err (strip (replaced_text err))) s2 else s2))
      | (Raised e, s1) \<Rightarrow> (False, print (ExceptionOccurred state_abbrev e) s1))"

text \<open>
  The label of a file in \<open>main\<close>:
  \<open>filename.split('_')[0] if '_' in filename else 'UNK'\<close>. The index \<open>[0]\<close> is in
  range, since a split is never empty.
\<close>

definition state_abbrev_of :: "string \<Rightarrow> string" where
  "state_abbrev_of filename =
     (if py_in ''_'' filename then hd (split_char CHR ''_'' filename) else ''UNK'')"

text \<open>The loop of \<open>main\<close> over the sorted files, with its two counters.\<close>

fun add_all ::
  "'w runner \<Rightarrow> string list \<Rightarrow> int \<Rightarrow> int \<Rightarrow> 'w process \<Rightarrow> int \<times> int \<times> 'w process" where
  "add_all run [] added_count failed_count s = (added_count, failed_count, s)"
| "add_all run (csv_file # rest) added_count failed_count s =
     (let filename = os_path_basename csv_file;
          state_abbrev = state_abbrev_of filename
      in case add_csv_to_queue run csv_file state_abbrev (print (Processing filename) s) of
           (ok, s1) \<Rightarrow>
             if ok then add_all run rest (added_count + 1) failed_count s1
             else add_all run rest added_count (failed_count + 1) s1)"

definition add_all_new_csvs_main ::
  "'w runner \<Rightarrow> filesystem \<Rightarrow> 'w process \<Rightarrow> 'w process" where
  "add_all_new_csvs_main run fs s =
     (let csv_files = glob_glob_in fs processed_csvs_dir ''*.csv'';
          s1 = print (Found (int (length csv_files)))
                 (print (Searching processed_csvs_dir) (print AddingAll s))
      in case add_all run (sort csv_files) 0 0 s1 of
           (added_count, failed_count, s2) \<Rightarrow>
             (let s3 = print (Summary added_count failed_count (added_count + failed_count)) s2
              in if added_count > 0 then print Hint s3 else s3))"

section \<open>add-processed-csvs-to-queue.py\<close>

definition ctbal_project_path :: string where
  "ctbal_project_path =
     ''c:'' @ bs @ ''Users'' @ bs @ ''djman'' @ bs @ ''OneDrive'' @ bs @ ''Documents''
       @ bs @ ''GitHub'' @ bs @ ''ctbal''"

definition processed_csvs_path :: string where
  "processed_csvs_path =
     ''c:'' @ bs @ ''Users'' @ bs @ ''djman'' @ bs @ ''OneDrive'' @ bs @ ''Documents''
       @ bs @ ''GitHub'' @ bs @ ''scrape-a-grave'' @ bs @ ''processed_csvs''"

text \<open>The table \<open>states\<close> of add-processed-csvs-to-queue.py.\<close>

definition states :: "state_rec list" where
  "states =
     [st ''AL'' ''Alabama'' ''state_3'', st ''AK'' ''Alaska'' ''state_2'',
      st ''AZ'' ''Arizona'' ''state_5'', st ''AR'' ''Arkansas'' ''state_4'',
      st ''CA'' ''California'' ''state_6'', st ''CO'' ''Colorado'' ''state_7'',
      st ''CT'' ''Connecticut'' ''state_8'', st ''DE'' ''Delaware'' ''state_10'',
      st ''DC'' ''District of Columbia'' ''state_9'', st ''FL'' ''Florida'' ''state_11'',
      st ''GA'' ''Georgia'' ''state_12'', st ''HI'' ''Hawaii'' ''state_13'',
      st ''ID'' ''Idaho'' ''state_15'', st ''IL'' ''Illinois'' ''state_16'',
      st ''IN'' ''Indiana'' ''state_17'', st ''IA'' ''Iowa'' ''state_14'',
      st ''KS'' ''Kansas'' ''state_18'', st ''KY'' ''Kentucky'' ''state_19'',
      st ''LA'' ''Louisiana'' ''state_20'', st ''ME'' ''Maine'' ''state_22'']"

text \<open>
  The resolution inside the loop: the text before the first underscore is the code,
  \<open>next(...)\<close> finds the first entry with that abbreviation, and a code without an
  entry is shown as it is.
\<close>

definition state_abbrev_processed :: "string \<Rightarrow> string" where
  "state_abbrev_processed csv_file = hd (split_char CHR ''_'' csv_file)"

definition state_info_of :: "string \<Rightarrow> state_rec option" where
  "state_info_of state_abbrev = find (\<lambda>s. st_abbreviation s = state_abbrev) states"

definition state_name_of :: "string \<Rightarrow> string" where
  "state_name_of csv_file =
     (let state_abbrev = state_abbrev_processed csv_file
      in case state_info_of state_abbrev of
           Some info \<Rightarrow> st_name info
         | None \<Rightarrow> state_abbrev)"

definition queue_add_processed_cmd :: "string \<Rightarrow> invocation" where
  "queue_add_processed_cmd csv_file =
     \<lparr>cmd = ''npm run queue:add '' @ dq @ os_path_join processed_csvs_path csv_file @ dq,
      in_dir = ctbal_project_path\<rparr>"

text \<open>
  The body of the loop, inside its \<open>try\<close>; the result tells whether the file counts. The
  streams are decoded with \<open>encoding='utf-8', errors='replace'\<close>.
\<close>

definition add_processed_one ::
  "'w runner \<Rightarrow> string \<Rightarrow> 'w process \<Rightarrow> bool \<times> 'w process" where
  "add_processed_one run csv_file s =
     (let state_abbrev = state_abbrev_processed csv_file;
          state_name = state_name_of csv_file;
          s1 = print (FileLine csv_file) (print (AddingState state_name state_abbrev) s)
      in case subprocess_run run (queue_add_processed_cmd csv_file) s1 of
           (Completed returncode out err, s2) \<Rightarrow>
             if returncode = 0 then (True, print (StateQueued state_name) s2)
             else (False,
                   (let s3 = print (StateFailed state_name) s2
                    in if replaced_text err \<noteq> []
                       then print (Err (strip (replaced_text err))) s3 else s3))
         | (Raised e, s2) \<Rightarrow> (False, print (ErrorProcessing csv_file e) s2))"

fun add_processed_all ::
  "'w runner \<Rightarrow> string list \<Rightarrow> int \<Rightarrow> 'w process \<Rightarrow> int \<times> 'w process" where
  "add_processed_all run [] success_count s = (success_count, s)"
| "add_processed_all run (csv_file # rest) success_count s =
     (case add_processed_one run csv_file s of
        (ok, s1) \<Rightarrow>
          add_processed_all run rest (if ok then success_count + 1 else success_count) s1)"

definition is_processed_csv :: "string \<Rightarrow> bool" where
  "is_processed_csv file = (endswith file ''.csv'' \<and> py_in ''_us_recent_deaths.csv'' file)"

definition add_processed_csvs_to_queue ::
  "'w runner \<Rightarrow> filesystem \<Rightarrow> 'w process \<Rightarrow> (py_error + unit) \<times> 'w process" where
  "add_processed_csvs_to_queue run fs s =
     (if \<not> os_path_exists fs processed_csvs_path
      then (Inr (), print (DirNotFound processed_csvs_path) s)
      else
        (case os_listdir fs processed_csvs_path of
           Inl e \<Rightarrow> (Inl e, s)
         | Inr names \<Rightarrow>
             (let csv_files = filter is_processed_csv names;
                  n = int (length csv_files)
              in case add_processed_all run (sort csv_files) 0 (print (Found n) s) of
                   (success_count, s1) \<Rightarrow>
                     (Inr (), print (Summary success_count (n - success_count) n) s1))))"

section \<open>Observations and example inputs\<close>

text \<open>The summaries among the printed messages, as triples succeeded, failed, total.\<close>

fun summary_of :: "line \<Rightarrow> (int \<times> int \<times> int) option" where
  "summary_of (Summary a b c) = Some (a, b, c)"
| "summary_of l = None"

definition summaries :: "line list \<Rightarrow> (int \<times> int \<times> int) list" where
  "summaries ls = List.map_filter summary_of ls"

text \<open>An outside world without memory: the answer depends on the command only.\<close>

definition stateless :: "(invocation \<Rightarrow> run_result) \<Rightarrow> 'w runner" where
  "stateless respond c w = (respond c, w)"

text \<open>The command ended with status 0.\<close>

definition succeeds :: "run_result \<Rightarrow> bool" where
  "succeeds r = (case r of Completed returncode out err \<Rightarrow> returncode = 0 | Raised e \<Rightarrow> False)"

text \<open>The command ended with status 0 and its standard output decodes strictly.\<close>

definition succeeds_readably :: "run_result \<Rightarrow> bool" where
  "succeeds_readably r =
     (case r of
        Completed returncode out err \<Rightarrow> returncode = 0 \<and> strict_text out \<noteq> None
      | Raised e \<Rightarrow> False)"

text \<open>
  The answers of a runner to a list of commands run one after the other, the outside
  world moving on with each.
\<close>

fun answers :: "'w runner \<Rightarrow> invocation list \<Rightarrow> 'w \<Rightarrow> run_result list" where
  "answers run [] w = []"
| "answers run (c # cs) w = fst (run c w) # answers run cs (snd (run c w))"

text \<open>
  Example answers: every command but those that mention \<open>bad\<close> completes with status 0;
  those cannot be started (\<open>cannot_start\<close>) or end with status 1 (\<open>exits_1\<close>).
\<close>

definition cannot_start :: "string \<Rightarrow> invocation \<Rightarrow> run_result" where
  "cannot_start bad c =
     (if py_in bad (cmd c) then Raised ''No such file or directory''
      else Completed 0 (Text ''queued'') (Text []))"

definition exits_1 :: "string \<Rightarrow> invocation \<Rightarrow> run_result" where
  "exits_1 bad c =
     (if py_in bad (cmd c) then Completed 1 (Text []) (Text '' missing script: queue:add '')
      else Completed 0 (Text ''queued'') (Text []))"

text \<open>
  An answer with status 0 whose output starts with a byte that the strict decoder
  rejects; decoded with replacement, the byte becomes U+FFFD (three bytes in UTF-8).
\<close>

definition garbled_output :: "invocation \<Rightarrow> run_result" where
  "garbled_output c =
     Completed 0 (Garbled ([CHR 0xEF, CHR 0xBF, CHR 0xBD] @ '' queued'')) (Text [])"

definition start :: "string \<Rightarrow> unit process" where
  "start d = \<lparr>world = (), cwd = d, calls = [], printed = []\<rparr>"

definition home :: string where
  "home = ''c:'' @ bs @ ''Users'' @ bs @ ''djman''"

text \<open>A set that iterates in the reverse of first-insertion order.\<close>

definition reversed_order :: set_order where
  "reversed_order xs = rev (remdups xs)"

text \<open>Example directories.\<close>

definition scrape_dir :: filesystem where
  "scrape_dir =
     [SCRAPE_A_GRAVE_PATH \<mapsto>
        Dir [''notes.txt'', ''deaths_texas_deaths.csv'', ''ohio_deaths.csv'',
             ''mortality_utah.csv'']]"

definition processed_dir :: filesystem where
  "processed_dir =
     [processed_csvs_path \<mapsto>
        Dir [''TX_20251118_210530_us_recent_deaths.csv'', ''readme.md'',
             ''FL_20251118_210521_us_recent_deaths.csv'',
             ''AL_20251118_210500_us_recent_deaths.csv''],
      processed_csvs_dir \<mapsto>
        Dir [''TX_20251118_210530_us_recent_deaths.csv'', ''readme.md'',
             ''FL_20251118_210521_us_recent_deaths.csv'', ''mystery.csv'']]"

definition empty_dirs :: filesystem where
  "empty_dirs =
     [processed_csvs_path \<mapsto> Dir [''readme.md''],
      SCRAPE_A_GRAVE_PATH \<mapsto> Dir [''readme.md'']]"

definition no_dirs :: filesystem where
  "no_dirs = Map.empty"

section \<open>Properties of the string functions\<close>

lemma py_in_sublist: "py_in p s = sublist p s"
  by (induction s) (auto simp: sublist_Cons_right)

lemma py_in_trans: "py_in p q \<Longrightarrow> py_in q s \<Longrightarrow> py_in p s"
  unfolding py_in_sublist by (rule sublist_order.order_trans)

lemma virginia_in_westvirginia: "py_in ''virginia'' ''westvirginia''"
  by simp

lemma split_char_nonempty: "split_char c s \<noteq> []"
  by (induction s) (auto split: list.splits)

lemma hd_split_char: "hd (split_char c s) = takeWhile (\<lambda>x. x \<noteq> c) s"
  by (induction s) (auto split: list.splits simp: split_char_nonempty)

lemma py_in_single: "py_in [c] s = (c \<in> set s)"
  by (induction s) auto

lemma split_char_absent: "c \<notin> set s \<Longrightarrow> split_char c s = [s]"
  by (induction s) auto

lemma first_pattern_find:
  "first_pattern ps b =
     (case find (\<lambda>kv. py_in (fst kv) b) ps of None \<Rightarrow> ''Unknown'' | Some kv \<Rightarrow> snd kv)"
  by (induction ps) auto

lemma first_pattern_skip:
  "\<forall>kv \<in> set xs. \<not> py_in (fst kv) b \<Longrightarrow> first_pattern (xs @ ys) b = first_pattern ys b"
  by (induction xs) auto

lemma first_pattern_Unknown:
  "\<forall>kv \<in> set ps. snd kv \<noteq> ''Unknown'' \<Longrightarrow>
   (first_pattern ps b = ''Unknown'') = (\<forall>kv \<in> set ps. \<not> py_in (fst kv) b)"
  by (induction ps) (auto split: if_splits)

lemma first_pattern_value:
  "first_pattern ps b \<noteq> ''Unknown'' \<Longrightarrow> first_pattern ps b \<in> snd ` set ps"
  by (induction ps) (auto split: if_splits)

lemma first_pattern_range:
  "first_pattern ps b = ''Unknown'' \<or> first_pattern ps b \<in> snd ` set ps"
  using first_pattern_value by blast

lemma never_west_virginia:
  "first_pattern state_patterns b \<noteq> ''West Virginia''"
proof (cases "py_in ''virginia'' b")
  case True
  then show ?thesis
    unfolding state_patterns_def by (simp del: py_in.simps)
next
  case False
  then have "\<not> py_in ''westvirginia'' b"
    using py_in_trans [OF virginia_in_westvirginia] by blast
  with False show ?thesis
    unfolding state_patterns_def by (simp del: py_in.simps)
qed

lemma state_patterns_split:
  "state_patterns = take 45 state_patterns @ (''virginia'', ''Virginia'') # drop 46 state_patterns"
  unfolding state_patterns_def by simp

lemma no_Unknown_value: "\<forall>kv \<in> set state_patterns. snd kv \<noteq> ''Unknown''"
  unfolding state_patterns_def by simp

lemma find_distinct_key:
  "distinct (map f xs) \<Longrightarrow> x \<in> set xs \<Longrightarrow> find (\<lambda>y. f y = f x) xs = Some x"
  by (induction xs) auto

lemma states_distinct: "distinct (map st_abbreviation states)"
  unfolding states_def st_def by simp

section \<open>What each function does to the process\<close>

lemma print_simps [simp]:
  "calls (print l s) = calls s" "cwd (print l s) = cwd s" "world (print l s) = world s"
  "printed (print l s) = printed s @ [l]"
  by (simp_all add: print_def)

lemma summaries_Nil [simp]: "summaries [] = []"
  by (simp add: summaries_def)

lemma summaries_Cons:
  "summaries (l # ls) = (case summary_of l of None \<Rightarrow> summaries ls | Some t \<Rightarrow> t # summaries ls)"
  by (simp add: summaries_def split: option.splits)

lemma summaries_append [simp]: "summaries (xs @ ys) = summaries xs @ summaries ys"
  by (induction xs) (simp_all add: summaries_Cons split: option.splits)

lemma subprocess_run_eq:
  "subprocess_run run c s =
     (fst (run c (world s)), s\<lparr>world := snd (run c (world s)), calls := calls s @ [c]\<rparr>)"
  by (simp add: subprocess_run_def split: prod.splits)

lemma transfer_calls [simp]:
  "calls (snd (transfer_csv_to_queue run f s)) = calls s @ [queue_add_cmd f]"
  by (cases "fst (run (queue_add_cmd f) (world (print (Adding (path_name f)) s)))")
     (simp_all add: transfer_csv_to_queue_def subprocess_run_eq Let_def split: option.splits)

lemma transfer_cwd [simp]:
  "cwd (snd (transfer_csv_to_queue run f s)) = cwd s"
  by (cases "fst (run (queue_add_cmd f) (world (print (Adding (path_name f)) s)))")
     (simp_all add: transfer_csv_to_queue_def subprocess_run_eq Let_def split: option.splits)

lemma transfer_world [simp]:
  "world (snd (transfer_csv_to_queue run f s)) = snd (run (queue_add_cmd f) (world s))"
  by (cases "fst (run (queue_add_cmd f) (world (print (Adding (path_name f)) s)))")
     (simp_all add: transfer_csv_to_queue_def subprocess_run_eq Let_def split: option.splits)

lemma transfer_summaries [simp]:
  "summaries (printed (snd (transfer_csv_to_queue run f s))) = summaries (printed s)"
  by (cases "fst (run (queue_add_cmd f) (world (print (Adding (path_name f)) s)))")
     (simp_all add: transfer_csv_to_queue_def subprocess_run_eq Let_def summaries_Cons
        split: option.splits)

lemma transfer_ok:
  "fst (transfer_csv_to_queue run f s) =
     succeeds_readably (fst (run (queue_add_cmd f) (world s)))"
  by (cases "fst (run (queue_add_cmd f) (world s))")
     (simp_all add: transfer_csv_to_queue_def subprocess_run_eq succeeds_readably_def Let_def
        split: option.splits)

lemma transfer_printed:
  "printed (snd (transfer_csv_to_queue run f s)) =
     printed s @ Adding (path_name f) #
       (case fst (run (queue_add_cmd f) (world s)) of
          Completed returncode out err \<Rightarrow>
            if returncode = 0
            then Queued (extract_state_from_filename f) #
                   (case strict_text out of
                      Some t \<Rightarrow> [Out (strip t)]
                    | None \<Rightarrow> [ErrorTransferring (path_name f) none_has_no_strip])
            else FailedToQueue (path_name f) #
                   (case strict_text err of
                      Some t \<Rightarrow> [Err (strip t)]
                    | None \<Rightarrow> [ErrorTransferring (path_name f) none_has_no_strip])
        | Raised e \<Rightarrow> [ErrorTransferring (path_name f) e])"
  by (cases "fst (run (queue_add_cmd f) (world s))")
     (simp_all add: transfer_csv_to_queue_def subprocess_run_eq Let_def split: option.splits)

lemma transfer_all_calls [simp]:
  "calls (snd (transfer_all run fs n s)) = calls s @ map queue_add_cmd fs"
  by (induction fs arbitrary: n s) (simp_all add: split_beta)

lemma transfer_all_cwd [simp]:
  "cwd (snd (transfer_all run fs n s)) = cwd s"
  by (induction fs arbitrary: n s) (simp_all add: split_beta)

lemma transfer_all_summaries [simp]:
  "summaries (printed (snd (transfer_all run fs n s))) = summaries (printed s)"
  by (induction fs arbitrary: n s) (simp_all add: split_beta)

lemma transfer_all_count:
  "n \<le> fst (transfer_all run fs n s) \<and> fst (transfer_all run fs n s) \<le> n + int (length fs)"
proof (induction fs arbitrary: n s)
  case Nil
  show ?case by simp
next
  case (Cons f fs)
  show ?case
    using Cons [of "n + 1" "snd (transfer_csv_to_queue run f s)"]
          Cons [of n "snd (transfer_csv_to_queue run f s)"]
    by (simp add: split_beta)
qed

lemma transfer_all_answers:
  "fst (transfer_all run fs n s) =
     n + int (length (filter succeeds_readably (answers run (map queue_add_cmd fs) (world s))))"
  by (induction fs arbitrary: n s) (simp_all add: split_beta transfer_ok)

lemma answers_stateless: "answers (stateless respond) cs w = map respond cs"
  by (induction cs arbitrary: w) (simp_all add: stateless_def)

lemma length_answers [simp]: "length (answers run cs w) = length cs"
  by (induction cs arbitrary: w) simp_all

lemma list_files_simps [simp]:
  "calls (list_files fs s) = calls s" "cwd (list_files fs s) = cwd s"
  "world (list_files fs s) = world s"
  "summaries (printed (list_files fs s)) = summaries (printed s)"
  by (induction fs arbitrary: s) (simp_all add: summaries_Cons)

lemma os_chdir_cases:
  "os_chdir fs p s =
     (case fs p of
        None \<Rightarrow> (Inl (FileNotFoundError p), s)
      | Some File \<Rightarrow> (Inl (NotADirectoryError p), s)
      | Some (Dir names) \<Rightarrow> (Inr (), s\<lparr>cwd := p\<rparr>))"
  by (simp add: os_chdir_def)

lemma find_missing:
  "fs SCRAPE_A_GRAVE_PATH = None \<Longrightarrow>
   find_state_csv_files_with pats order fs s = (Inl (FileNotFoundError SCRAPE_A_GRAVE_PATH), s)"
  by (simp add: find_state_csv_files_with_def os_chdir_def)

lemma find_present:
  "fs SCRAPE_A_GRAVE_PATH = Some (Dir names) \<Longrightarrow>
   find_state_csv_files_with pats order fs s =
     (Inr (map (os_path_join SCRAPE_A_GRAVE_PATH)
             (order (extend_matches fs (s\<lparr>cwd := SCRAPE_A_GRAVE_PATH\<rparr>) pats []))),
      s\<lparr>cwd := SCRAPE_A_GRAVE_PATH\<rparr>)"
  by (simp add: find_state_csv_files_with_def os_chdir_def os_path_abspath_def)

lemma find_state_unchanged:
  "calls (snd (find_state_csv_files_with pats order fs s)) = calls s \<and>
   printed (snd (find_state_csv_files_with pats order fs s)) = printed s \<and>
   world (snd (find_state_csv_files_with pats order fs s)) = world s"
  by (simp add: find_state_csv_files_with_def os_chdir_def split: option.splits node.splits)

lemma batch_found:
  assumes "find_state_csv_files order fs (print Scanning s) = (Inr csv_files, s1)"
    and "csv_files \<noteq> []"
  shows "batch_transfer_all_csvs run order fs s =
           (Inr (),
            print (Summary
                     (fst (transfer_all run csv_files 0
                        (print (Transferring (int (length csv_files)))
                           (list_files csv_files (print (Found (int (length csv_files))) s1)))))
                     (int (length csv_files) -
                      fst (transfer_all run csv_files 0
                        (print (Transferring (int (length csv_files)))
                           (list_files csv_files (print (Found (int (length csv_files))) s1)))))
                     (int (length csv_files)))
              (snd (transfer_all run csv_files 0
                        (print (Transferring (int (length csv_files)))
                           (list_files csv_files (print (Found (int (length csv_files))) s1))))))"
  using assms by (simp add: batch_transfer_all_csvs_def Let_def split_beta)


lemma add_csv_calls [simp]:
  "calls (snd (add_csv_to_queue run f a s)) =
     calls s @ [\<lparr>cmd = ''npm run queue:add -- '' @ dq @ f @ dq, in_dir = cwd s\<rparr>]"
  by (cases "fst (run \<lparr>cmd = ''npm run queue:add -- '' @ dq @ f @ dq, in_dir = cwd s\<rparr> (world s))")
     (simp_all add: add_csv_to_queue_def subprocess_run_eq Let_def)

lemma add_csv_cwd [simp]:
  "cwd (snd (add_csv_to_queue run f a s)) = cwd s"
  by (cases "fst (run \<lparr>cmd = ''npm run queue:add -- '' @ dq @ f @ dq, in_dir = cwd s\<rparr> (world s))")
     (simp_all add: add_csv_to_queue_def subprocess_run_eq Let_def)

lemma add_csv_summaries [simp]:
  "summaries (printed (snd (add_csv_to_queue run f a s))) = summaries (printed s)"
  by (cases "fst (run \<lparr>cmd = ''npm run queue:add -- '' @ dq @ f @ dq, in_dir = cwd s\<rparr> (world s))")
     (simp_all add: add_csv_to_queue_def subprocess_run_eq Let_def summaries_Cons)

lemma add_csv_ok:
  "fst (add_csv_to_queue run f a s) =
     succeeds (fst (run \<lparr>cmd = ''npm run queue:add -- '' @ dq @ f @ dq, in_dir = cwd s\<rparr> (world s)))"
  by (cases "fst (run \<lparr>cmd = ''npm run queue:add -- '' @ dq @ f @ dq, in_dir = cwd s\<rparr> (world s))")
     (simp_all add: add_csv_to_queue_def subprocess_run_eq succeeds_def)

lemma add_csv_printed:
  "printed (snd (add_csv_to_queue run f a s)) =
     printed s @
       (case fst (run \<lparr>cmd = ''npm run queue:add -- '' @ dq @ f @ dq, in_dir = cwd s\<rparr> (world s)) of
          Completed returncode out err \<Rightarrow>
            if returncode = 0 then [AddedOk a]
            else if replaced_text err \<noteq> []
                 then [AddFailed a, Err (strip (replaced_text err))] else [AddFailed a]
        | Raised e \<Rightarrow> [ExceptionOccurred a e])"
  by (cases "fst (run \<lparr>cmd = ''npm run queue:add -- '' @ dq @ f @ dq, in_dir = cwd s\<rparr> (world s))")
     (simp_all add: add_csv_to_queue_def subprocess_run_eq Let_def)

lemma add_all_cwd [simp]:
  "cwd (snd (snd (add_all run fs a b s))) = cwd s"
  by (induction fs arbitrary: a b s) (simp_all add: split_beta Let_def)

lemma add_all_calls [simp]:
  "calls (snd (snd (add_all run fs a b s))) =
     calls s @ map (\<lambda>f. \<lparr>cmd = ''npm run queue:add -- '' @ dq @ f @ dq, in_dir = cwd s\<rparr>) fs"
  by (induction fs arbitrary: a b s) (simp_all add: split_beta Let_def)

lemma add_all_summaries [simp]:
  "summaries (printed (snd (snd (add_all run fs a b s)))) = summaries (printed s)"
  by (induction fs arbitrary: a b s) (simp_all add: split_beta Let_def summaries_Cons)

lemma add_all_count:
  "fst (add_all run fs a b s) + fst (snd (add_all run fs a b s)) = a + b + int (length fs)
   \<and> a \<le> fst (add_all run fs a b s) \<and> b \<le> fst (snd (add_all run fs a b s))"
proof (induction fs arbitrary: a b s)
  case Nil
  show ?case by simp
next
  case (Cons f fs)
  let ?s1 = "snd (add_csv_to_queue run f (state_abbrev_of (os_path_basename f))
                    (print (Processing (os_path_basename f)) s))"
  show ?case
    using Cons [of "a + 1" b ?s1] Cons [of a "b + 1" ?s1]
    by (simp add: split_beta Let_def)
qed

lemma add_all_main_result:
  "add_all_new_csvs_main run fs s =
     (let fl = sort (glob_glob_in fs processed_csvs_dir ''*.csv'');
          r = add_all run fl 0 0
                (print (Found (int (length fl)))
                   (print (Searching processed_csvs_dir) (print AddingAll s)));
          s3 = print (Summary (fst r) (fst (snd r)) (fst r + fst (snd r))) (snd (snd r))
      in if fst r > 0 then print Hint s3 else s3)"
  by (simp add: add_all_new_csvs_main_def Let_def split_beta)

lemma add_processed_one_calls [simp]:
  "calls (snd (add_processed_one run f s)) = calls s @ [queue_add_processed_cmd f]"
  by (cases "fst (run (queue_add_processed_cmd f) (world s))")
     (simp_all add: add_processed_one_def subprocess_run_eq Let_def)

lemma add_processed_one_cwd [simp]:
  "cwd (snd (add_processed_one run f s)) = cwd s"
  by (cases "fst (run (queue_add_processed_cmd f) (world s))")
     (simp_all add: add_processed_one_def subprocess_run_eq Let_def)

lemma add_processed_one_summaries [simp]:
  "summaries (printed (snd (add_processed_one run f s))) = summaries (printed s)"
  by (cases "fst (run (queue_add_processed_cmd f) (world s))")
     (simp_all add: add_processed_one_def subprocess_run_eq Let_def summaries_Cons)

lemma add_processed_one_ok:
  "fst (add_processed_one run f s) = succeeds (fst (run (queue_add_processed_cmd f) (world s)))"
  by (cases "fst (run (queue_add_processed_cmd f) (world s))")
     (simp_all add: add_processed_one_def subprocess_run_eq succeeds_def Let_def)

lemma add_processed_all_calls [simp]:
  "calls (snd (add_processed_all run fs n s)) = calls s @ map queue_add_processed_cmd fs"
  by (induction fs arbitrary: n s) (simp_all add: split_beta)

lemma add_processed_all_cwd [simp]:
  "cwd (snd (add_processed_all run fs n s)) = cwd s"
  by (induction fs arbitrary: n s) (simp_all add: split_beta)

lemma add_processed_all_summaries [simp]:
  "summaries (printed (snd (add_processed_all run fs n s))) = summaries (printed s)"
  by (induction fs arbitrary: n s) (simp_all add: split_beta)

lemma add_processed_all_count:
  "n \<le> fst (add_processed_all run fs n s) \<and>
   fst (add_processed_all run fs n s) \<le> n + int (length fs)"
proof (induction fs arbitrary: n s)
  case Nil
  show ?case by simp
next
  case (Cons f fs)
  show ?case
    using Cons [of "n + 1" "snd (add_processed_one run f s)"]
          Cons [of n "snd (add_processed_one run f s)"]
    by (simp add: split_beta)
qed

lemma add_processed_present:
  "fs processed_csvs_path = Some (Dir names) \<Longrightarrow>
   add_processed_csvs_to_queue run fs s =
     (let fl = filter is_processed_csv names;
          n = int (length fl);
          r = add_processed_all run (sort fl) 0 (print (Found n) s)
      in (Inr (), print (Summary (fst r) (n - fst r) n) (snd r)))"
  by (simp add: add_processed_csvs_to_queue_def os_path_exists_def os_listdir_def
        Let_def split_beta)

lemma add_processed_missing:
  "fs processed_csvs_path = None \<Longrightarrow>
   add_processed_csvs_to_queue run fs s = (Inr (), print (DirNotFound processed_csvs_path) s)"
  by (simp add: add_processed_csvs_to_queue_def os_path_exists_def)

section \<open>The example inputs, evaluated\<close>

lemma scrape_dir_listing:
  "scrape_dir SCRAPE_A_GRAVE_PATH =
     Some (Dir [''notes.txt'', ''deaths_texas_deaths.csv'', ''ohio_deaths.csv'',
                ''mortality_utah.csv''])"
  by (simp add: scrape_dir_def)

lemma scrape_dir_matches:
  "extend_matches scrape_dir (s\<lparr>cwd := SCRAPE_A_GRAVE_PATH\<rparr>) patterns [] =
     [''deaths_texas_deaths.csv'', ''ohio_deaths.csv'', ''deaths_texas_deaths.csv'',
      ''mortality_utah.csv'']"
  by (simp add: patterns_def glob_glob_def scrape_dir_listing glob1_def fnmatch_def
        ishidden_def lower_def lower_char_def)

lemma scrape_dir_found:
  "find_state_csv_files reversed_order scrape_dir s =
     (Inr (map (os_path_join SCRAPE_A_GRAVE_PATH)
             [''mortality_utah.csv'', ''deaths_texas_deaths.csv'', ''ohio_deaths.csv'']),
      s\<lparr>cwd := SCRAPE_A_GRAVE_PATH\<rparr>)"
  unfolding find_state_csv_files_def
  using scrape_dir_listing
  by (simp add: find_present [of scrape_dir] scrape_dir_matches reversed_order_def)

lemma processed_paths_differ: "processed_csvs_path \<noteq> processed_csvs_dir"
  by (simp add: processed_csvs_path_def processed_csvs_dir_def)

lemma processed_dir_listing:
  "processed_dir processed_csvs_path =
     Some (Dir [''TX_20251118_210530_us_recent_deaths.csv'', ''readme.md'',
                ''FL_20251118_210521_us_recent_deaths.csv'',
                ''AL_20251118_210500_us_recent_deaths.csv''])"
  using processed_paths_differ by (simp add: processed_dir_def)

lemma processed_dir_csvs:
  "filter is_processed_csv
     [''TX_20251118_210530_us_recent_deaths.csv'', ''readme.md'',
      ''FL_20251118_210521_us_recent_deaths.csv'',
      ''AL_20251118_210500_us_recent_deaths.csv''] =
     [''TX_20251118_210530_us_recent_deaths.csv'',
      ''FL_20251118_210521_us_recent_deaths.csv'',
      ''AL_20251118_210500_us_recent_deaths.csv'']"
  by code_simp

section \<open>Resolving a state from a file name\<close>

text \<open>
  C9, as amended. The table is scanned in insertion order and the first key contained in
  the lower-cased stem decides. No file name resolves to West Virginia, because every
  name that contains \<open>westvirginia\<close> contains the earlier key \<open>virginia\<close>. Such a name
  resolves to Virginia when none of the 45 keys before \<open>virginia\<close> occurs in it;
  otherwise the earliest of those keys wins.
\<close>

theorem westvirginia_shadowed:
  "extract_state_from_filename f =
     (case find (\<lambda>kv. py_in (fst kv) (lower (path_stem f))) state_patterns of
        None \<Rightarrow> ''Unknown''
      | Some kv \<Rightarrow> snd kv)
   \<and> extract_state_from_filename f \<noteq> ''West Virginia''
   \<and> (py_in ''westvirginia'' (lower (path_stem f)) \<longrightarrow>
        (\<forall>kv \<in> set (take 45 state_patterns). \<not> py_in (fst kv) (lower (path_stem f))) \<longrightarrow>
        extract_state_from_filename f = ''Virginia'')"
proof (intro conjI impI)
  show "extract_state_from_filename f =
     (case find (\<lambda>kv. py_in (fst kv) (lower (path_stem f))) state_patterns of
        None \<Rightarrow> ''Unknown''
      | Some kv \<Rightarrow> snd kv)"
    unfolding extract_state_from_filename_def by (rule first_pattern_find)
  show "extract_state_from_filename f \<noteq> ''West Virginia''"
    unfolding extract_state_from_filename_def by (rule never_west_virginia)
next
  let ?b = "lower (path_stem f)"
  assume wv: "py_in ''westvirginia'' ?b"
    and none: "\<forall>kv \<in> set (take 45 state_patterns). \<not> py_in (fst kv) ?b"
  have v: "py_in ''virginia'' ?b"
    using py_in_trans [OF virginia_in_westvirginia wv] .
  have "first_pattern state_patterns ?b =
          first_pattern ((''virginia'', ''Virginia'') # drop 46 state_patterns) ?b"
    using first_pattern_skip [OF none] state_patterns_split by metis
  also have "\<dots> = ''Virginia''"
    using v by (simp del: py_in.simps)
  finally show "extract_state_from_filename f = ''Virginia''"
    unfolding extract_state_from_filename_def .
qed

theorem westvirginia_shadowed_witness:
  "py_in ''westvirginia'' (lower (path_stem ''WestVirginia_deaths.csv''))
   \<and> extract_state_from_filename ''WestVirginia_deaths.csv'' = ''Virginia''"
proof -
  have h1: "py_in ''westvirginia'' (lower (path_stem ''WestVirginia_deaths.csv''))"
    by code_simp
  have h2: "\<forall>kv \<in> set (take 45 state_patterns).
              \<not> py_in (fst kv) (lower (path_stem ''WestVirginia_deaths.csv''))"
    by code_simp
  from westvirginia_shadowed [of "''WestVirginia_deaths.csv''"] h1 h2
  show ?thesis by blast
qed

text \<open>
  C9 as first stated fails: this stem contains \<open>westvirginia\<close> and resolves to Ohio.
\<close>

theorem westvirginia_counterexample:
  "py_in ''westvirginia'' (path_stem ''ohio_westvirginia.csv'')
   \<and> extract_state_from_filename ''ohio_westvirginia.csv'' = ''Ohio''
   \<and> extract_state_from_filename ''ohio_westvirginia.csv'' \<noteq> ''Virginia''"
  by code_simp

text \<open>
  C1, as amended. Each script resolves with one heuristic. In
  add-processed-csvs-to-queue.py the text before the first underscore is the code: a
  registered code gives the name of its entry, any other code is shown as it is.
  \<open>extract_state_from_filename\<close> only looks for the keys of its table inside the
  lower-cased stem, and answers Unknown exactly when none occurs. Neither can fail: the
  split that is indexed is never empty.
\<close>

theorem resolve_one_heuristic:
  "(CHR ''_'' \<notin> set code \<longrightarrow> info \<in> set states \<longrightarrow> st_abbreviation info = code \<longrightarrow>
      state_name_of (code @ ''_'' @ rest) = st_name info)
   \<and> (state_info_of (state_abbrev_processed f) = None \<longrightarrow>
        state_name_of f = state_abbrev_processed f)
   \<and> split_char CHR ''_'' f \<noteq> []
   \<and> (extract_state_from_filename f = ''Unknown'' \<or>
        extract_state_from_filename f \<in> snd ` set state_patterns)
   \<and> ((extract_state_from_filename f = ''Unknown'') =
        (\<forall>kv \<in> set state_patterns. \<not> py_in (fst kv) (lower (path_stem f))))"
proof (intro conjI impI)
  assume c: "CHR ''_'' \<notin> set code" and i: "info \<in> set states"
    and a: "st_abbreviation info = code"
  have "state_abbrev_processed (code @ ''_'' @ rest) = code"
    using c by (simp add: state_abbrev_processed_def hd_split_char takeWhile_append)
  moreover have "state_info_of code = Some info"
    unfolding state_info_of_def a [symmetric]
    by (rule find_distinct_key [OF states_distinct i])
  ultimately show "state_name_of (code @ ''_'' @ rest) = st_name info"
    by (simp add: state_name_of_def)
next
  assume "state_info_of (state_abbrev_processed f) = None"
  then show "state_name_of f = state_abbrev_processed f"
    by (simp add: state_name_of_def)
next
  show "split_char CHR ''_'' f \<noteq> []" by (rule split_char_nonempty)
  show "extract_state_from_filename f = ''Unknown'' \<or>
        extract_state_from_filename f \<in> snd ` set state_patterns"
    unfolding extract_state_from_filename_def by (rule first_pattern_range)
  show "(extract_state_from_filename f = ''Unknown'') =
        (\<forall>kv \<in> set state_patterns. \<not> py_in (fst kv) (lower (path_stem f)))"
    unfolding extract_state_from_filename_def
    by (rule first_pattern_Unknown [OF no_Unknown_value])
qed

theorem resolve_one_heuristic_witness:
  "state_name_of (''FL'' @ ''_'' @ ''20251118_210521_us_recent_deaths.csv'') = ''Florida''
   \<and> state_name_of ''ZZ_1_us_recent_deaths.csv'' = ''ZZ''
   \<and> extract_state_from_filename ''texas_deaths.csv'' \<noteq> ''Unknown''"
proof -
  have h1: "CHR ''_'' \<notin> set ''FL''" by simp
  have h2: "st ''FL'' ''Florida'' ''state_11'' \<in> set states" by (simp add: states_def)
  have h3: "st_abbreviation (st ''FL'' ''Florida'' ''state_11'') = ''FL''" by (simp add: st_def)
  have h4: "state_info_of (state_abbrev_processed ''ZZ_1_us_recent_deaths.csv'') = None"
    by code_simp
  have h5: "state_abbrev_processed ''ZZ_1_us_recent_deaths.csv'' = ''ZZ''" by code_simp
  have h6: "\<not> (\<forall>kv \<in> set state_patterns. \<not> py_in (fst kv) (lower (path_stem ''texas_deaths.csv'')))"
    by code_simp
  have h7: "st_name (st ''FL'' ''Florida'' ''state_11'') = ''Florida''" by (simp add: st_def)
  from resolve_one_heuristic [of "''FL''" "st ''FL'' ''Florida'' ''state_11''"
      "''20251118_210521_us_recent_deaths.csv''" "''ZZ_1_us_recent_deaths.csv''"] h1 h2 h3 h4 h5 h7
  have a: "state_name_of (''FL'' @ ''_'' @ ''20251118_210521_us_recent_deaths.csv'') = ''Florida''"
    and b: "state_name_of ''ZZ_1_us_recent_deaths.csv'' = ''ZZ''"
    by metis+
  from resolve_one_heuristic [of _ _ _ "''texas_deaths.csv''"] h6
  have "extract_state_from_filename ''texas_deaths.csv'' \<noteq> ''Unknown''" by blast
  with a b show ?thesis by blast
qed

text \<open>
  C1 as first stated fails: a name that starts with the registered code FL and an
  underscore is Unknown to \<open>extract_state_from_filename\<close>, and the unregistered code ZZ
  is shown as ZZ, not as Unknown, by the other script.
\<close>

theorem resolve_counterexample:
  "state_abbrev_processed ''FL_20251118_210521_us_recent_deaths.csv'' = ''FL''
   \<and> state_info_of ''FL'' = Some (st ''FL'' ''Florida'' ''state_11'')
   \<and> extract_state_from_filename ''FL_20251118_210521_us_recent_deaths.csv'' = ''Unknown''
   \<and> state_name_of ''ZZ_1_us_recent_deaths.csv'' = ''ZZ''"
  by code_simp

section \<open>Running a batch\<close>

text \<open>
  C2. Whatever the outside world answers to each command, every batch loop hands every
  located file to the queue command, one call for each file in the order of the list,
  so a failed file never stops the files after it; and it prints one summary whose
  counts of succeeded and failed files are not negative and add up to the total, the
  number of files. This holds for \<open>batch_transfer_all_csvs\<close> when at least one file is
  found, for \<open>main\<close> of add-all-new-csvs.py, and for \<open>add_processed_csvs_to_queue\<close> when
  its directory exists.
\<close>

theorem batch_processes_every_file:
  "(find_state_csv_files order fs (print Scanning s) = (Inr csv_files, s1) \<longrightarrow>
    csv_files \<noteq> [] \<longrightarrow>
      (\<exists>succeeded s2.
         batch_transfer_all_csvs run order fs s = (Inr (), s2)
         \<and> calls s2 = calls s @ map queue_add_cmd csv_files
         \<and> summaries (printed s2) =
             summaries (printed s) @
               [(succeeded, int (length csv_files) - succeeded, int (length csv_files))]
         \<and> 0 \<le> succeeded \<and> 0 \<le> int (length csv_files) - succeeded
         \<and> succeeded + (int (length csv_files) - succeeded) = int (length csv_files)))
   \<and> (\<exists>added failed.
         calls (add_all_new_csvs_main run fs s) =
           calls s @
             map (\<lambda>f. \<lparr>cmd = ''npm run queue:add -- '' @ dq @ f @ dq, in_dir = cwd s\<rparr>)
               (sort (glob_glob_in fs processed_csvs_dir ''*.csv''))
         \<and> summaries (printed (add_all_new_csvs_main run fs s)) =
             summaries (printed s) @ [(added, failed, added + failed)]
         \<and> 0 \<le> added \<and> 0 \<le> failed
         \<and> added + failed = int (length (glob_glob_in fs processed_csvs_dir ''*.csv'')))
   \<and> (fs processed_csvs_path = Some (Dir names) \<longrightarrow>
        (\<exists>succeeded s2.
           add_processed_csvs_to_queue run fs s = (Inr (), s2)
           \<and> calls s2 =
               calls s @ map queue_add_processed_cmd (sort (filter is_processed_csv names))
           \<and> summaries (printed s2) =
               summaries (printed s) @
                 [(succeeded, int (length (filter is_processed_csv names)) - succeeded,
                   int (length (filter is_processed_csv names)))]
           \<and> 0 \<le> succeeded \<and> 0 \<le> int (length (filter is_processed_csv names)) - succeeded
           \<and> succeeded + (int (length (filter is_processed_csv names)) - succeeded) =
               int (length (filter is_processed_csv names))))"
proof (intro conjI impI)
  assume f: "find_state_csv_files order fs (print Scanning s) = (Inr csv_files, s1)"
    and ne: "csv_files \<noteq> []"
  let ?n = "int (length csv_files)"
  let ?r = "transfer_all run csv_files 0
              (print (Transferring ?n) (list_files csv_files (print (Found ?n) s1)))"
  have s1: "calls s1 = calls s" "printed s1 = printed s @ [Scanning]"
    using find_state_unchanged [of patterns order fs "print Scanning s"] f
    by (simp_all add: find_state_csv_files_def)
  have b: "batch_transfer_all_csvs run order fs s =
             (Inr (), print (Summary (fst ?r) (?n - fst ?r) ?n) (snd ?r))"
    by (rule batch_found [OF f ne])
  have c: "0 \<le> fst ?r \<and> fst ?r \<le> 0 + ?n"
    by (rule transfer_all_count)
  show "\<exists>succeeded s2.
         batch_transfer_all_csvs run order fs s = (Inr (), s2)
         \<and> calls s2 = calls s @ map queue_add_cmd csv_files
         \<and> summaries (printed s2) =
             summaries (printed s) @ [(succeeded, ?n - succeeded, ?n)]
         \<and> 0 \<le> succeeded \<and> 0 \<le> ?n - succeeded
         \<and> succeeded + (?n - succeeded) = ?n"
    apply (rule exI [of _ "fst ?r"])
    apply (rule exI [of _ "print (Summary (fst ?r) (?n - fst ?r) ?n) (snd ?r)"])
    using b c s1 by (simp add: summaries_Cons)
next
  let ?fl = "sort (glob_glob_in fs processed_csvs_dir ''*.csv'')"
  let ?r = "add_all run ?fl 0 0
              (print (Found (int (length ?fl)))
                 (print (Searching processed_csvs_dir) (print AddingAll s)))"
  have c: "fst ?r + fst (snd ?r) = 0 + 0 + int (length ?fl) \<and> 0 \<le> fst ?r \<and> 0 \<le> fst (snd ?r)"
    by (rule add_all_count)
  show "\<exists>added failed.
         calls (add_all_new_csvs_main run fs s) =
           calls s @
             map (\<lambda>f. \<lparr>cmd = ''npm run queue:add -- '' @ dq @ f @ dq, in_dir = cwd s\<rparr>)
               (sort (glob_glob_in fs processed_csvs_dir ''*.csv''))
         \<and> summaries (printed (add_all_new_csvs_main run fs s)) =
             summaries (printed s) @ [(added, failed, added + failed)]
         \<and> 0 \<le> added \<and> 0 \<le> failed
         \<and> added + failed = int (length (glob_glob_in fs processed_csvs_dir ''*.csv''))"
    apply (rule exI [of _ "fst ?r"])
    apply (rule exI [of _ "fst (snd ?r)"])
    using c by (simp add: add_all_main_result Let_def summaries_Cons)
next
  assume d: "fs processed_csvs_path = Some (Dir names)"
  let ?fl = "filter is_processed_csv names"
  let ?n = "int (length ?fl)"
  let ?r = "add_processed_all run (sort ?fl) 0 (print (Found ?n) s)"
  have c: "0 \<le> fst ?r \<and> fst ?r \<le> 0 + int (length (sort ?fl))"
    by (rule add_processed_all_count)
  show "\<exists>succeeded s2.
           add_processed_csvs_to_queue run fs s = (Inr (), s2)
           \<and> calls s2 = calls s @ map queue_add_processed_cmd (sort ?fl)
           \<and> summaries (printed s2) =
               summaries (printed s) @ [(succeeded, ?n - succeeded, ?n)]
           \<and> 0 \<le> succeeded \<and> 0 \<le> ?n - succeeded
           \<and> succeeded + (?n - succeeded) = ?n"
    apply (rule exI [of _ "fst ?r"])
    apply (rule exI [of _ "print (Summary (fst ?r) (?n - fst ?r) ?n) (snd ?r)"])
    using c d by (simp add: add_processed_present [of fs names] Let_def summaries_Cons)
qed

theorem batch_processes_every_file_witness:
  "(\<exists>succeeded s2.
      batch_transfer_all_csvs (stateless (cannot_start ''ohio'')) reversed_order scrape_dir
        (start home) = (Inr (), s2)
      \<and> length (calls s2) = 3
      \<and> summaries (printed s2) = [(succeeded, 3 - succeeded, 3)])
   \<and> (\<exists>succeeded s2.
      add_processed_csvs_to_queue (stateless (exits_1 ''FL'')) processed_dir (start home) =
        (Inr (), s2)
      \<and> length (calls s2) = 3
      \<and> summaries (printed s2) = [(succeeded, 3 - succeeded, 3)])"
proof -
  let ?found = "map (os_path_join SCRAPE_A_GRAVE_PATH)
                  [''mortality_utah.csv'', ''deaths_texas_deaths.csv'', ''ohio_deaths.csv'']"
  let ?names = "[''TX_20251118_210530_us_recent_deaths.csv'', ''readme.md'',
                 ''FL_20251118_210521_us_recent_deaths.csv'',
                 ''AL_20251118_210500_us_recent_deaths.csv'']"
  have h1: "find_state_csv_files reversed_order scrape_dir (print Scanning (start home)) =
              (Inr ?found, (print Scanning (start home))\<lparr>cwd := SCRAPE_A_GRAVE_PATH\<rparr>)"
    by (rule scrape_dir_found)
  have h2: "?found \<noteq> []" by simp
  have h3: "processed_dir processed_csvs_path = Some (Dir ?names)"
    by (rule processed_dir_listing)
  have e: "calls (start home) = []" "printed (start home) = []"
    by (simp_all add: start_def)
  have a: "\<exists>succeeded s2.
      batch_transfer_all_csvs (stateless (cannot_start ''ohio'')) reversed_order scrape_dir
        (start home) = (Inr (), s2)
      \<and> length (calls s2) = 3
      \<and> summaries (printed s2) = [(succeeded, 3 - succeeded, 3)]"
    using batch_processes_every_file [of reversed_order scrape_dir "start home" ?found
        "(print Scanning (start home))\<lparr>cwd := SCRAPE_A_GRAVE_PATH\<rparr>"
        "stateless (cannot_start ''ohio'')" ?names] h1 h2 e
    by auto
  have "processed_dir processed_csvs_path = Some (Dir ?names) \<longrightarrow>
        (\<exists>succeeded s2.
           add_processed_csvs_to_queue (stateless (exits_1 ''FL'')) processed_dir (start home) =
             (Inr (), s2)
           \<and> calls s2 =
               calls (start home) @
                 map queue_add_processed_cmd (sort (filter is_processed_csv ?names))
           \<and> summaries (printed s2) =
               summaries (printed (start home)) @
                 [(succeeded, int (length (filter is_processed_csv ?names)) - succeeded,
                   int (length (filter is_processed_csv ?names)))]
           \<and> 0 \<le> succeeded \<and> 0 \<le> int (length (filter is_processed_csv ?names)) - succeeded
           \<and> succeeded + (int (length (filter is_processed_csv ?names)) - succeeded) =
               int (length (filter is_processed_csv ?names)))"
    using batch_processes_every_file [of reversed_order processed_dir "start home" ?found
        "(print Scanning (start home))\<lparr>cwd := SCRAPE_A_GRAVE_PATH\<rparr>"
        "stateless (exits_1 ''FL'')" ?names]
    by (elim conjE)
  then obtain succeeded s2 where
    "add_processed_csvs_to_queue (stateless (exits_1 ''FL'')) processed_dir (start home) =
       (Inr (), s2)"
    "calls s2 =
       calls (start home) @ map queue_add_processed_cmd (sort (filter is_processed_csv ?names))"
    "summaries (printed s2) =
       summaries (printed (start home)) @
         [(succeeded, int (length (filter is_processed_csv ?names)) - succeeded,
           int (length (filter is_processed_csv ?names)))]"
    using h3 by blast
  then have b: "\<exists>succeeded s2.
      add_processed_csvs_to_queue (stateless (exits_1 ''FL'')) processed_dir (start home) =
        (Inr (), s2)
      \<and> length (calls s2) = 3
      \<and> summaries (printed s2) = [(succeeded, 3 - succeeded, 3)]"
    unfolding processed_dir_csvs e by simp
  from a b show ?thesis by blast
qed

lemma set_extend_matches:
  "set (extend_matches fs s ps acc) = set acc \<union> (\<Union>p \<in> set ps. set (glob_glob fs s p))"
  by (induction ps arbitrary: acc) auto

lemma glob_glob_in_cwd:
  "fs d = Some (Dir names) \<Longrightarrow> glob_glob fs (s\<lparr>cwd := d\<rparr>) p = glob1 names p"
  by (simp add: glob_glob_def)

lemma os_path_join_inj: "os_path_join d f = os_path_join d g \<Longrightarrow> f = g"
  by (simp add: os_path_join_def split: if_splits)

lemma distinct_count_list_1: "distinct xs \<Longrightarrow> x \<in> set xs \<Longrightarrow> count_list xs x = 1"
  by (induction xs) auto

lemma reversed_order_ok: "set_order_ok reversed_order xs"
  by (simp add: set_order_ok_def reversed_order_def)

section \<open>Locating the files\<close>

text \<open>
  C3. For every list of patterns (each matched against the names of the source
  directory), when the directory exists and the deduplicating set behaves as a set,
  \<open>find_state_csv_files\<close> returns a list without repetition that holds exactly the paths
  of the names matched by at least one pattern: a file matched by two or more patterns
  occurs once.
\<close>

theorem locate_returns_each_file_once:
  assumes "fs SCRAPE_A_GRAVE_PATH = Some (Dir names)"
    and "set_order_ok order (extend_matches fs (s\<lparr>cwd := SCRAPE_A_GRAVE_PATH\<rparr>) pats [])"
  shows "\<exists>files.
           find_state_csv_files_with pats order fs s =
             (Inr files, s\<lparr>cwd := SCRAPE_A_GRAVE_PATH\<rparr>)
           \<and> distinct files
           \<and> set files = os_path_join SCRAPE_A_GRAVE_PATH ` (\<Union>p \<in> set pats. set (glob1 names p))
           \<and> (\<forall>p \<in> set pats. \<forall>nm \<in> set (glob1 names p).
                 count_list files (os_path_join SCRAPE_A_GRAVE_PATH nm) = 1)"
proof -
  let ?s = "s\<lparr>cwd := SCRAPE_A_GRAVE_PATH\<rparr>"
  let ?u = "order (extend_matches fs ?s pats [])"
  let ?files = "map (os_path_join SCRAPE_A_GRAVE_PATH) ?u"
  have d: "distinct ?u" and su: "set ?u = set (extend_matches fs ?s pats [])"
    using assms(2) by (simp_all add: set_order_ok_def)
  have m: "set (extend_matches fs ?s pats []) = (\<Union>p \<in> set pats. set (glob1 names p))"
    using assms(1) by (simp add: set_extend_matches glob_glob_in_cwd [of fs _ names])
  have inj: "inj_on (os_path_join SCRAPE_A_GRAVE_PATH) (set ?u)"
    by (rule inj_onI) (rule os_path_join_inj)
  have df: "distinct ?files"
    using d inj by (simp add: distinct_map)
  have sf: "set ?files = os_path_join SCRAPE_A_GRAVE_PATH ` (\<Union>p \<in> set pats. set (glob1 names p))"
    using su m by simp
  have once: "\<forall>p \<in> set pats. \<forall>nm \<in> set (glob1 names p).
                count_list ?files (os_path_join SCRAPE_A_GRAVE_PATH nm) = 1"
  proof (intro ballI)
    fix p nm
    assume "p \<in> set pats" "nm \<in> set (glob1 names p)"
    then have "os_path_join SCRAPE_A_GRAVE_PATH nm \<in> set ?files"
      unfolding sf by blast
    then show "count_list ?files (os_path_join SCRAPE_A_GRAVE_PATH nm) = 1"
      using df by (rule distinct_count_list_1 [rotated])
  qed
  have "find_state_csv_files_with pats order fs s = (Inr ?files, ?s)"
    using assms(1) by (simp add: find_present [of fs names])
  with df sf once show ?thesis by blast
qed

theorem locate_returns_each_file_once_witness:
  "''deaths_texas_deaths.csv'' \<in> set (glob1 [''notes.txt'', ''deaths_texas_deaths.csv'',
       ''ohio_deaths.csv'', ''mortality_utah.csv''] ''*_deaths.csv'')
   \<and> ''deaths_texas_deaths.csv'' \<in> set (glob1 [''notes.txt'', ''deaths_texas_deaths.csv'',
       ''ohio_deaths.csv'', ''mortality_utah.csv''] ''deaths_*.csv'')
   \<and> (\<exists>files.
         find_state_csv_files reversed_order scrape_dir (start home) =
           (Inr files, (start home)\<lparr>cwd := SCRAPE_A_GRAVE_PATH\<rparr>)
         \<and> length files = 3
         \<and> count_list files (os_path_join SCRAPE_A_GRAVE_PATH ''deaths_texas_deaths.csv'') = 1)"
proof -
  let ?names = "[''notes.txt'', ''deaths_texas_deaths.csv'', ''ohio_deaths.csv'',
                 ''mortality_utah.csv'']"
  have g1: "''deaths_texas_deaths.csv'' \<in> set (glob1 ?names ''*_deaths.csv'')"
    by code_simp
  have g2: "''deaths_texas_deaths.csv'' \<in> set (glob1 ?names ''deaths_*.csv'')"
    by code_simp
  have p: "''*_deaths.csv'' \<in> set patterns"
    by (simp add: patterns_def)
  obtain files where
    f: "find_state_csv_files_with patterns reversed_order scrape_dir (start home) =
          (Inr files, (start home)\<lparr>cwd := SCRAPE_A_GRAVE_PATH\<rparr>)"
    and c: "\<forall>p \<in> set patterns. \<forall>nm \<in> set (glob1 ?names p).
              count_list files (os_path_join SCRAPE_A_GRAVE_PATH nm) = 1"
    using locate_returns_each_file_once [of scrape_dir ?names reversed_order "start home" patterns]
      scrape_dir_listing reversed_order_ok
    by blast
  have "length files = 3"
    using f scrape_dir_found [of "start home"] by (simp add: find_state_csv_files_def)
  moreover have "count_list files (os_path_join SCRAPE_A_GRAVE_PATH ''deaths_texas_deaths.csv'') = 1"
    using c p g1 by blast
  ultimately show ?thesis
    using f g1 g2 by (simp add: find_state_csv_files_def)
qed

lemma three_one_fails:
  assumes "length xs = 3" "i < 3" "\<forall>j<3. P (xs ! j) = (j \<noteq> i)"
  shows "length (filter P xs) = 2"
proof -
  obtain a b c where xs: "xs = [a, b, c]"
    using assms(1) by (auto simp: length_Suc_conv numeral_3_eq_3)
  have "P (xs ! 0) = (0 \<noteq> i)" "P (xs ! 1) = (1 \<noteq> i)" "P (xs ! 2) = (2 \<noteq> i)"
    using assms(3) by simp_all
  moreover have "i = 0 \<or> i = 1 \<or> i = 2" using assms(2) by arith
  ultimately show ?thesis unfolding xs by auto
qed

lemma ohio_path_name:
  "path_name (os_path_join SCRAPE_A_GRAVE_PATH ''ohio_deaths.csv'') = ''ohio_deaths.csv''"
  by code_simp

lemma ohio_state:
  "extract_state_from_filename (os_path_join SCRAPE_A_GRAVE_PATH ''ohio_deaths.csv'') = ''Ohio''"
  by code_simp

section \<open>Dispatching one file\<close>

text \<open>
  What holds of the dispatch functions. Each runs the queue command once: one more call
  is recorded, so nothing is retried. \<open>add_csv_to_queue\<close> returns true exactly when the
  command ended with status 0. \<open>transfer_csv_to_queue\<close> returns true exactly when the
  command ended with status 0 and its standard output could be decoded; another status
  prints the failure and the stripped error text, an exception prints its text.
\<close>

lemma dispatch_classification:
  "fst (transfer_csv_to_queue run f s) =
     succeeds_readably (fst (run (queue_add_cmd f) (world s)))
   \<and> calls (snd (transfer_csv_to_queue run f s)) = calls s @ [queue_add_cmd f]
   \<and> (fst (run (queue_add_cmd f) (world s)) = Completed 0 (Text t) err \<longrightarrow>
        fst (transfer_csv_to_queue run f s)
        \<and> printed (snd (transfer_csv_to_queue run f s)) =
            printed s @ [Adding (path_name f), Queued (extract_state_from_filename f),
                         Out (strip t)])
   \<and> (fst (run (queue_add_cmd f) (world s)) = Completed rc out (Text t) \<longrightarrow> rc \<noteq> 0 \<longrightarrow>
        \<not> fst (transfer_csv_to_queue run f s)
        \<and> printed (snd (transfer_csv_to_queue run f s)) =
            printed s @ [Adding (path_name f), FailedToQueue (path_name f), Err (strip t)])
   \<and> (fst (run (queue_add_cmd f) (world s)) = Raised e \<longrightarrow>
        \<not> fst (transfer_csv_to_queue run f s)
        \<and> printed (snd (transfer_csv_to_queue run f s)) =
            printed s @ [Adding (path_name f), ErrorTransferring (path_name f) e])
   \<and> fst (add_csv_to_queue run f a s) =
        succeeds (fst (run \<lparr>cmd = ''npm run queue:add -- '' @ dq @ f @ dq, in_dir = cwd s\<rparr>
                         (world s)))
   \<and> calls (snd (add_csv_to_queue run f a s)) =
        calls s @ [\<lparr>cmd = ''npm run queue:add -- '' @ dq @ f @ dq, in_dir = cwd s\<rparr>]
   \<and> (fst (run \<lparr>cmd = ''npm run queue:add -- '' @ dq @ f @ dq, in_dir = cwd s\<rparr> (world s)) =
          Completed rc out err \<longrightarrow> rc \<noteq> 0 \<longrightarrow> replaced_text err \<noteq> [] \<longrightarrow>
        printed (snd (add_csv_to_queue run f a s)) =
          printed s @ [AddFailed a, Err (strip (replaced_text err))])
   \<and> (fst (run \<lparr>cmd = ''npm run queue:add -- '' @ dq @ f @ dq, in_dir = cwd s\<rparr> (world s)) =
          Raised e \<longrightarrow>
        printed (snd (add_csv_to_queue run f a s)) = printed s @ [ExceptionOccurred a e])"
  by (simp add: transfer_ok transfer_printed add_csv_ok add_csv_printed succeeds_readably_def
        strict_text_def)

lemma batch_summary:
  assumes f: "find_state_csv_files order fs (print Scanning s) = (Inr csv_files, s1)"
    and ne: "csv_files \<noteq> []"
  shows "summaries (printed (snd (batch_transfer_all_csvs run order fs s))) =
           summaries (printed s) @
             [(int (length (filter succeeds_readably
                      (answers run (map queue_add_cmd csv_files) (world s)))),
               int (length csv_files) -
                 int (length (filter succeeds_readably
                        (answers run (map queue_add_cmd csv_files) (world s)))),
               int (length csv_files))]"
proof -
  have s1: "printed s1 = printed s @ [Scanning]" "world s1 = world s"
    using find_state_unchanged [of patterns order fs "print Scanning s"] f
    by (simp_all add: find_state_csv_files_def)
  show ?thesis
    by (simp add: batch_found [OF f ne] transfer_all_answers s1 summaries_Cons)
qed

text \<open>
  Scenario C, for any outside world: when three files are found and, as the three
  commands run one after the other, the command cannot start for exactly one of them
  while the other two end with status 0 and readable output, the summary of
  \<open>batch_transfer_all_csvs\<close> is 2 succeeded, 1 failed, 3 in total.
\<close>

lemma one_start_failure_among_three:
  assumes f: "find_state_csv_files order fs (print Scanning s) = (Inr csv_files, s1)"
    and l: "length csv_files = 3" and i: "i < 3"
    and r: "answers run (map queue_add_cmd csv_files) (world s) ! i = Raised e"
    and ok: "\<forall>j<3. succeeds_readably (answers run (map queue_add_cmd csv_files) (world s) ! j)
                    = (j \<noteq> i)"
  shows "summaries (printed (snd (batch_transfer_all_csvs run order fs s))) =
           summaries (printed s) @ [(2, 1, 3)]"
proof -
  have ne: "csv_files \<noteq> []" using l by auto
  have "length (answers run (map queue_add_cmd csv_files) (world s)) = 3"
    using l by simp
  then have two: "length (filter succeeds_readably
                    (answers run (map queue_add_cmd csv_files) (world s))) = 2"
    using i ok by (rule three_one_fails)
  show ?thesis
    unfolding batch_summary [OF f ne] two l by simp
qed

text \<open>
  C4. The claim says that a queue command which ends with status 0 is a success, for
  every dispatch. \<open>transfer_csv_to_queue\<close> breaks this on a command that ends with
  status 0 and writes output that cannot be decoded: the script prints that the file was
  queued, then fails on the missing output, and returns false, so the batch counts all
  three files as failed. \<open>add_csv_to_queue\<close>, which decodes with replacement, returns
  true on the same answer.
\<close>

theorem exit_zero_counted_as_failure:
  "succeeds (garbled_output (queue_add_cmd (os_path_join SCRAPE_A_GRAVE_PATH ''ohio_deaths.csv'')))
   \<and> \<not> fst (transfer_csv_to_queue (stateless garbled_output)
            (os_path_join SCRAPE_A_GRAVE_PATH ''ohio_deaths.csv'') (start home))
   \<and> printed (snd (transfer_csv_to_queue (stateless garbled_output)
        (os_path_join SCRAPE_A_GRAVE_PATH ''ohio_deaths.csv'') (start home))) =
      [Adding ''ohio_deaths.csv'', Queued ''Ohio'',
       ErrorTransferring ''ohio_deaths.csv'' none_has_no_strip]
   \<and> fst (add_csv_to_queue (stateless garbled_output)
        (os_path_join SCRAPE_A_GRAVE_PATH ''ohio_deaths.csv'') ''UNK'' (start home))
   \<and> summaries (printed (snd (batch_transfer_all_csvs (stateless garbled_output)
        reversed_order scrape_dir (start home)))) = [(0, 3, 3)]"
proof (intro conjI)
  let ?f = "os_path_join SCRAPE_A_GRAVE_PATH ''ohio_deaths.csv''"
  let ?run = "stateless garbled_output :: unit runner"
  have e: "printed (start home) = []" by (simp add: start_def)
  show "succeeds (garbled_output (queue_add_cmd ?f))"
    by (simp add: succeeds_def garbled_output_def)
  show "\<not> fst (transfer_csv_to_queue ?run ?f (start home))"
    by (simp add: transfer_ok stateless_def garbled_output_def succeeds_readably_def
          strict_text_def)
  show "printed (snd (transfer_csv_to_queue ?run ?f (start home))) =
      [Adding ''ohio_deaths.csv'', Queued ''Ohio'',
       ErrorTransferring ''ohio_deaths.csv'' none_has_no_strip]"
    by (simp add: transfer_printed stateless_def garbled_output_def strict_text_def e
          ohio_path_name ohio_state)
  show "fst (add_csv_to_queue ?run ?f ''UNK'' (start home))"
    by (simp add: add_csv_ok stateless_def garbled_output_def succeeds_def)
  let ?found = "map (os_path_join SCRAPE_A_GRAVE_PATH)
                  [''mortality_utah.csv'', ''deaths_texas_deaths.csv'', ''ohio_deaths.csv'']"
  have h1: "find_state_csv_files reversed_order scrape_dir (print Scanning (start home)) =
              (Inr ?found, (print Scanning (start home))\<lparr>cwd := SCRAPE_A_GRAVE_PATH\<rparr>)"
    by (rule scrape_dir_found)
  have h2: "?found \<noteq> []" by simp
  have none: "filter succeeds_readably (answers ?run cs w) = []" for cs w
    by (induction cs arbitrary: w)
       (simp_all add: stateless_def garbled_output_def succeeds_readably_def strict_text_def)
  show "summaries (printed (snd (batch_transfer_all_csvs ?run reversed_order scrape_dir
          (start home)))) = [(0, 3, 3)]"
    unfolding batch_summary [OF h1 h2] none e by simp
qed

section \<open>The working directory of the queue command\<close>

text \<open>
  C5, as amended. The queue command of \<open>transfer_csv_to_queue\<close> and of
  \<open>add_processed_csvs_to_queue\<close> runs in the configured project directory, whatever the
  current working directory of the script is. The queue command of \<open>add_csv_to_queue\<close>
  (add-all-new-csvs.py) runs in the current working directory of the script itself.
\<close>

theorem enqueue_working_directory:
  "calls (snd (transfer_csv_to_queue run f s)) = calls s @ [queue_add_cmd f]
   \<and> in_dir (queue_add_cmd f) = CTBAL_PROJECT_PATH
   \<and> map in_dir (calls (snd (transfer_all run fl n s))) =
        map in_dir (calls s) @ replicate (length fl) CTBAL_PROJECT_PATH
   \<and> calls (snd (add_processed_one run f s)) = calls s @ [queue_add_processed_cmd f]
   \<and> in_dir (queue_add_processed_cmd f) = ctbal_project_path
   \<and> map in_dir (calls (snd (add_processed_all run fl n s))) =
        map in_dir (calls s) @ replicate (length fl) ctbal_project_path
   \<and> map in_dir (calls (snd (add_csv_to_queue run f a s))) = map in_dir (calls s) @ [cwd s]
   \<and> map in_dir (calls (snd (snd (add_all run fl n m s)))) =
        map in_dir (calls s) @ replicate (length fl) (cwd s)"
  by (simp add: queue_add_cmd_def queue_add_processed_cmd_def map_replicate_const comp_def)

text \<open>
  C5 as first stated fails: started in the home directory, \<open>add_csv_to_queue\<close> runs the
  queue command there, and that is not the project directory.
\<close>

theorem enqueue_in_caller_directory_counterexample:
  "map in_dir (calls (snd (add_csv_to_queue (stateless (exits_1 ''none''))
       (os_path_join processed_csvs_dir ''FL_20251118_210521_us_recent_deaths.csv'') ''FL''
       (start home)))) = [home]
   \<and> cwd (start home) = home
   \<and> home \<noteq> CTBAL_PROJECT_PATH \<and> home \<noteq> ctbal_project_path"
  by (simp add: start_def home_def CTBAL_PROJECT_PATH_def ctbal_project_path_def)

lemma append_le_append_same: "(d @ x \<le> d @ y) = (x \<le> (y :: 'a :: linorder list))"
  by (induction d) simp_all

lemma sorted_map_append_same:
  "sorted (map (\<lambda>x. d @ x) xs) = sorted (xs :: 'a :: linorder list list)"
  by (induction xs) (simp_all add: append_le_append_same)

lemma os_path_join_fun:
  "os_path_join d = (@) (if d = [] \<or> is_sep (last d) then d else d @ bs)"
  by (rule ext) (simp add: os_path_join_def)

lemma sorted_map_join: "sorted (map (os_path_join d) xs) = sorted xs"
  by (simp only: os_path_join_fun sorted_map_append_same)

lemma sort_listing_independent:
  fixes xs ys :: "'a :: linorder list"
  assumes "distinct xs" "distinct ys" "set xs = set ys"
  shows "sort (filter P xs) = sort (filter P ys)"
proof (rule sorted_distinct_set_unique)
  show "sorted (sort (filter P xs))" "sorted (sort (filter P ys))" by simp_all
  show "distinct (sort (filter P xs))" "distinct (sort (filter P ys))"
    using assms(1,2) by simp_all
  show "set (sort (filter P xs)) = set (sort (filter P ys))"
    using assms(3) by simp
qed

lemma sort_glob_listing_independent:
  assumes "distinct names" "distinct names'" "set names = set names'"
  shows "sort (map (os_path_join d) (glob1 names p)) =
         sort (map (os_path_join d) (glob1 names' p))"
proof (rule sorted_distinct_set_unique)
  have inj: "inj_on (os_path_join d) A" for A
    by (rule inj_onI) (rule os_path_join_inj)
  show "sorted (sort (map (os_path_join d) (glob1 names p)))"
       "sorted (sort (map (os_path_join d) (glob1 names' p)))" by simp_all
  show "distinct (sort (map (os_path_join d) (glob1 names p)))"
    using assms(1) inj by (simp add: glob1_def distinct_map)
  show "distinct (sort (map (os_path_join d) (glob1 names' p)))"
    using assms(2) inj by (simp add: glob1_def distinct_map)
  show "set (sort (map (os_path_join d) (glob1 names p))) =
        set (sort (map (os_path_join d) (glob1 names' p)))"
    using assms(3) by (simp add: glob1_def)
qed

lemma batch_calls:
  assumes "find_state_csv_files order fs (print Scanning s) = (Inr csv_files, s1)"
    and "csv_files \<noteq> []"
  shows "calls (snd (batch_transfer_all_csvs run order fs s)) =
           calls s @ map queue_add_cmd csv_files"
proof -
  have "calls s1 = calls s"
    using find_state_unchanged [of patterns order fs "print Scanning s"] assms(1)
    by (simp add: find_state_csv_files_def)
  then show ?thesis
    by (simp add: batch_found [OF assms])
qed

lemma processed_dir_sorted:
  "sort [''TX_20251118_210530_us_recent_deaths.csv'',
         ''FL_20251118_210521_us_recent_deaths.csv'',
         ''AL_20251118_210500_us_recent_deaths.csv''] =
     [''AL_20251118_210500_us_recent_deaths.csv'',
      ''FL_20251118_210521_us_recent_deaths.csv'',
      ''TX_20251118_210530_us_recent_deaths.csv'']"
  by simp

section \<open>The order in which a batch handles its files\<close>

text \<open>
  C6, as amended. \<open>main\<close> of add-all-new-csvs.py and \<open>add_processed_csvs_to_queue\<close> hand
  their files to the queue command in ascending order of their paths, and that order
  depends on which names the directory holds, not on the order in which it lists them.
  \<open>batch_transfer_all_csvs\<close> hands its files over in the order of the list that
  \<open>find_state_csv_files\<close> returns, which is the iteration order of the deduplicating set;
  it does not sort.
\<close>

theorem dispatch_order:
  "calls (add_all_new_csvs_main run fs s) =
     calls s @
       map (\<lambda>f. \<lparr>cmd = ''npm run queue:add -- '' @ dq @ f @ dq, in_dir = cwd s\<rparr>)
         (sort (glob_glob_in fs processed_csvs_dir ''*.csv''))
   \<and> sorted (sort (glob_glob_in fs processed_csvs_dir ''*.csv''))
   \<and> (fs processed_csvs_path = Some (Dir names) \<longrightarrow>
        calls (snd (add_processed_csvs_to_queue run fs s)) =
          calls s @ map queue_add_processed_cmd (sort (filter is_processed_csv names))
        \<and> sorted (map (os_path_join processed_csvs_path)
                    (sort (filter is_processed_csv names))))
   \<and> (distinct names \<longrightarrow> distinct names' \<longrightarrow> set names = set names' \<longrightarrow>
        sort (filter is_processed_csv names) = sort (filter is_processed_csv names')
        \<and> sort (map (os_path_join processed_csvs_dir) (glob1 names ''*.csv'')) =
            sort (map (os_path_join processed_csvs_dir) (glob1 names' ''*.csv'')))
   \<and> (find_state_csv_files order fs (print Scanning s) = (Inr csv_files, s1) \<longrightarrow>
        csv_files \<noteq> [] \<longrightarrow>
        calls (snd (batch_transfer_all_csvs run order fs s)) =
          calls s @ map queue_add_cmd csv_files)
   \<and> (fs SCRAPE_A_GRAVE_PATH = Some (Dir names) \<longrightarrow>
        fst (find_state_csv_files order fs s) =
          Inr (map (os_path_join SCRAPE_A_GRAVE_PATH)
                 (order (extend_matches fs (s\<lparr>cwd := SCRAPE_A_GRAVE_PATH\<rparr>) patterns []))))"
proof (intro conjI impI)
  show "calls (add_all_new_csvs_main run fs s) =
     calls s @
       map (\<lambda>f. \<lparr>cmd = ''npm run queue:add -- '' @ dq @ f @ dq, in_dir = cwd s\<rparr>)
         (sort (glob_glob_in fs processed_csvs_dir ''*.csv''))"
    by (simp add: add_all_main_result Let_def)
  show "sorted (sort (glob_glob_in fs processed_csvs_dir ''*.csv''))"
    by simp
next
  assume d: "fs processed_csvs_path = Some (Dir names)"
  then show "calls (snd (add_processed_csvs_to_queue run fs s)) =
          calls s @ map queue_add_processed_cmd (sort (filter is_processed_csv names))"
    by (simp add: add_processed_present [of fs names] Let_def)
  show "sorted (map (os_path_join processed_csvs_path) (sort (filter is_processed_csv names)))"
    by (simp add: sorted_map_join)
next
  assume n: "distinct names" "distinct names'" "set names = set names'"
  then show "sort (filter is_processed_csv names) = sort (filter is_processed_csv names')"
    by (rule sort_listing_independent)
  from n show "sort (map (os_path_join processed_csvs_dir) (glob1 names ''*.csv'')) =
            sort (map (os_path_join processed_csvs_dir) (glob1 names' ''*.csv''))"
    by (rule sort_glob_listing_independent)
next
  assume "find_state_csv_files order fs (print Scanning s) = (Inr csv_files, s1)"
    and "csv_files \<noteq> []"
  then show "calls (snd (batch_transfer_all_csvs run order fs s)) =
          calls s @ map queue_add_cmd csv_files"
    by (rule batch_calls)
next
  assume "fs SCRAPE_A_GRAVE_PATH = Some (Dir names)"
  then show "fst (find_state_csv_files order fs s) =
          Inr (map (os_path_join SCRAPE_A_GRAVE_PATH)
                 (order (extend_matches fs (s\<lparr>cwd := SCRAPE_A_GRAVE_PATH\<rparr>) patterns [])))"
    by (simp add: find_state_csv_files_def find_present [of fs names])
qed

theorem dispatch_order_witness:
  "calls (snd (add_processed_csvs_to_queue (stateless (exits_1 ''FL'')) processed_dir
      (start home))) =
     map queue_add_processed_cmd
       [''AL_20251118_210500_us_recent_deaths.csv'',
        ''FL_20251118_210521_us_recent_deaths.csv'',
        ''TX_20251118_210530_us_recent_deaths.csv'']
   \<and> sort (filter is_processed_csv
        [''AL_20251118_210500_us_recent_deaths.csv'', ''readme.md'',
         ''TX_20251118_210530_us_recent_deaths.csv'',
         ''FL_20251118_210521_us_recent_deaths.csv'']) =
      [''AL_20251118_210500_us_recent_deaths.csv'',
       ''FL_20251118_210521_us_recent_deaths.csv'',
       ''TX_20251118_210530_us_recent_deaths.csv'']
   \<and> calls (snd (batch_transfer_all_csvs (stateless (exits_1 ''FL'')) reversed_order scrape_dir
        (start home))) =
      map queue_add_cmd
        (map (os_path_join SCRAPE_A_GRAVE_PATH)
           [''mortality_utah.csv'', ''deaths_texas_deaths.csv'', ''ohio_deaths.csv''])"
proof -
  let ?names = "[''TX_20251118_210530_us_recent_deaths.csv'', ''readme.md'',
                 ''FL_20251118_210521_us_recent_deaths.csv'',
                 ''AL_20251118_210500_us_recent_deaths.csv'']"
  let ?names' = "[''AL_20251118_210500_us_recent_deaths.csv'', ''readme.md'',
                  ''TX_20251118_210530_us_recent_deaths.csv'',
                  ''FL_20251118_210521_us_recent_deaths.csv'']"
  let ?found = "map (os_path_join SCRAPE_A_GRAVE_PATH)
                  [''mortality_utah.csv'', ''deaths_texas_deaths.csv'', ''ohio_deaths.csv'']"
  let ?s1 = "(print Scanning (start home))\<lparr>cwd := SCRAPE_A_GRAVE_PATH\<rparr>"
  let ?run = "stateless (exits_1 ''FL'') :: unit runner"
  have h1: "processed_dir processed_csvs_path = Some (Dir ?names)"
    by (rule processed_dir_listing)
  have h2: "distinct ?names" "distinct ?names'" "set ?names = set ?names'"
    by auto
  have h3: "find_state_csv_files reversed_order scrape_dir (print Scanning (start home)) =
              (Inr ?found, ?s1)"
    by (rule scrape_dir_found)
  have h4: "?found \<noteq> []" by simp
  have e: "calls (start home) = []" by (simp add: start_def)
  note t1 = dispatch_order [of ?run processed_dir "start home" ?names ?names' reversed_order
      ?found ?s1]
  note t2 = dispatch_order [of ?run scrape_dir "start home" ?names ?names' reversed_order
      ?found ?s1]
  have a: "calls (snd (add_processed_csvs_to_queue ?run processed_dir (start home))) =
             calls (start home) @
               map queue_add_processed_cmd (sort (filter is_processed_csv ?names))"
    using t1 h1 by blast
  have b: "sort (filter is_processed_csv ?names) = sort (filter is_processed_csv ?names')"
    using t1 h2 by blast
  have c: "calls (snd (batch_transfer_all_csvs ?run reversed_order scrape_dir (start home))) =
             calls (start home) @ map queue_add_cmd ?found"
    using t2 h3 h4 by blast
  have s: "sort (filter is_processed_csv ?names) =
             [''AL_20251118_210500_us_recent_deaths.csv'',
              ''FL_20251118_210521_us_recent_deaths.csv'',
              ''TX_20251118_210530_us_recent_deaths.csv'']"
    unfolding processed_dir_csvs by (rule processed_dir_sorted)
  show ?thesis
    using a b c unfolding s e by simp
qed

text \<open>
  C6 as first stated fails: with a set that iterates in the reverse of insertion order,
  \<open>batch_transfer_all_csvs\<close> hands over the Utah file first and the Ohio file last,
  which is not the ascending order of the paths.
\<close>

theorem unsorted_dispatch_counterexample:
  "set_order_ok reversed_order
     [''deaths_texas_deaths.csv'', ''ohio_deaths.csv'', ''deaths_texas_deaths.csv'',
      ''mortality_utah.csv'']
   \<and> calls (snd (batch_transfer_all_csvs (stateless (exits_1 ''FL'')) reversed_order scrape_dir
        (start home))) =
      map queue_add_cmd
        (map (os_path_join SCRAPE_A_GRAVE_PATH)
           [''mortality_utah.csv'', ''deaths_texas_deaths.csv'', ''ohio_deaths.csv''])
   \<and> \<not> sorted (map (os_path_join SCRAPE_A_GRAVE_PATH)
           [''mortality_utah.csv'', ''deaths_texas_deaths.csv'', ''ohio_deaths.csv''])"
proof (intro conjI)
  show "set_order_ok reversed_order
     [''deaths_texas_deaths.csv'', ''ohio_deaths.csv'', ''deaths_texas_deaths.csv'',
      ''mortality_utah.csv'']"
    by (rule reversed_order_ok)
  have "calls (start home) = []" by (simp add: start_def)
  then show "calls (snd (batch_transfer_all_csvs (stateless (exits_1 ''FL'')) reversed_order
        scrape_dir (start home))) =
      map queue_add_cmd
        (map (os_path_join SCRAPE_A_GRAVE_PATH)
           [''mortality_utah.csv'', ''deaths_texas_deaths.csv'', ''ohio_deaths.csv''])"
    using batch_calls [of reversed_order scrape_dir "start home" _ _ "stateless (exits_1 ''FL'')"]
      scrape_dir_found [of "print Scanning (start home)"]
    by simp
  show "\<not> sorted (map (os_path_join SCRAPE_A_GRAVE_PATH)
           [''mortality_utah.csv'', ''deaths_texas_deaths.csv'', ''ohio_deaths.csv''])"
    unfolding sorted_map_join by simp
qed

lemma empty_dirs_scrape: "empty_dirs SCRAPE_A_GRAVE_PATH = Some (Dir [''readme.md''])"
  by (simp add: empty_dirs_def)

lemma scrape_not_processed: "processed_csvs_path \<noteq> SCRAPE_A_GRAVE_PATH"
  by (simp add: processed_csvs_path_def SCRAPE_A_GRAVE_PATH_def)

lemma empty_dirs_processed: "empty_dirs processed_csvs_path = Some (Dir [''readme.md''])"
  using scrape_not_processed by (simp add: empty_dirs_def)

lemma readme_matches_nothing: "\<forall>p \<in> set patterns. glob1 [''readme.md''] p = []"
  by (simp add: patterns_def glob1_def fnmatch_def ishidden_def lower_def lower_char_def)

lemma readme_not_processed: "filter is_processed_csv [''readme.md''] = []"
  by code_simp

lemma extend_matches_nothing:
  "\<forall>p \<in> set ps. glob_glob fs s p = [] \<Longrightarrow> extend_matches fs s ps acc = acc"
  by (induction ps arbitrary: acc) simp_all

section \<open>A root directory that does not exist\<close>

text \<open>
  C7. When the directory of processed files does not exist, \<open>add_processed_csvs_to_queue\<close>
  prints that it was not found and returns: no command is run and no summary is printed.
  When the source directory does not exist, \<open>os.chdir\<close> raises in
  \<open>find_state_csv_files\<close>; the exception leaves \<open>batch_transfer_all_csvs\<close> and \<open>main\<close>
  before any command is run and before any summary. Both differ from a directory that
  exists and holds no matching file: there the first script prints a summary of zeros and
  the second prints that no file was found.
\<close>

theorem missing_root_reported_before_dispatch:
  "(fs processed_csvs_path = None \<longrightarrow>
      add_processed_csvs_to_queue run fs s =
        (Inr (), print (DirNotFound processed_csvs_path) s)
      \<and> calls (snd (add_processed_csvs_to_queue run fs s)) = calls s
      \<and> summaries (printed (snd (add_processed_csvs_to_queue run fs s))) =
          summaries (printed s))
   \<and> (fs SCRAPE_A_GRAVE_PATH = None \<longrightarrow>
        batch_transfer_all_csvs run order fs s =
          (Inl (FileNotFoundError SCRAPE_A_GRAVE_PATH), print Scanning s)
        \<and> main run order fs [prog, ''transfer''] s =
            (Inl (FileNotFoundError SCRAPE_A_GRAVE_PATH), print Scanning s)
        \<and> main run order fs [prog, ''full''] s =
            (Inl (FileNotFoundError SCRAPE_A_GRAVE_PATH),
             print Scanning (print FullPipeline s))
        \<and> calls (snd (batch_transfer_all_csvs run order fs s)) = calls s
        \<and> summaries (printed (snd (batch_transfer_all_csvs run order fs s))) =
            summaries (printed s))
   \<and> (fs processed_csvs_path = Some (Dir names) \<longrightarrow> filter is_processed_csv names = [] \<longrightarrow>
        add_processed_csvs_to_queue run fs s =
          (Inr (), print (Summary 0 0 0) (print (Found 0) s)))
   \<and> (fs SCRAPE_A_GRAVE_PATH = Some (Dir names) \<longrightarrow>
        (\<forall>p \<in> set patterns. glob1 names p = []) \<longrightarrow> set_order_ok order [] \<longrightarrow>
        batch_transfer_all_csvs run order fs s =
          (Inr (), print NoCsvFound ((print Scanning s)\<lparr>cwd := SCRAPE_A_GRAVE_PATH\<rparr>)))"
proof (intro conjI impI)
  assume m: "fs processed_csvs_path = None"
  then show a: "add_processed_csvs_to_queue run fs s =
        (Inr (), print (DirNotFound processed_csvs_path) s)"
    by (rule add_processed_missing)
  show "calls (snd (add_processed_csvs_to_queue run fs s)) = calls s"
    unfolding a by simp
  show "summaries (printed (snd (add_processed_csvs_to_queue run fs s))) =
          summaries (printed s)"
    unfolding a by (simp add: summaries_Cons)
next
  assume m: "fs SCRAPE_A_GRAVE_PATH = None"
  have b: "batch_transfer_all_csvs run order fs t =
          (Inl (FileNotFoundError SCRAPE_A_GRAVE_PATH), print Scanning t)" for t
    using m by (simp add: batch_transfer_all_csvs_def find_state_csv_files_def find_missing)
  show "batch_transfer_all_csvs run order fs s =
          (Inl (FileNotFoundError SCRAPE_A_GRAVE_PATH), print Scanning s)"
    by (rule b)
  show "main run order fs [prog, ''transfer''] s =
            (Inl (FileNotFoundError SCRAPE_A_GRAVE_PATH), print Scanning s)"
    by (simp add: main_def lower_def lower_char_def b)
  show "main run order fs [prog, ''full''] s =
            (Inl (FileNotFoundError SCRAPE_A_GRAVE_PATH),
             print Scanning (print FullPipeline s))"
    by (simp add: main_def lower_def lower_char_def b)
  show "calls (snd (batch_transfer_all_csvs run order fs s)) = calls s"
    unfolding b by simp
  show "summaries (printed (snd (batch_transfer_all_csvs run order fs s))) =
            summaries (printed s)"
    unfolding b by (simp add: summaries_Cons)
next
  assume "fs processed_csvs_path = Some (Dir names)" "filter is_processed_csv names = []"
  then show "add_processed_csvs_to_queue run fs s =
          (Inr (), print (Summary 0 0 0) (print (Found 0) s))"
    by (simp add: add_processed_present [of fs names])
next
  assume d: "fs SCRAPE_A_GRAVE_PATH = Some (Dir names)"
    and n: "\<forall>p \<in> set patterns. glob1 names p = []"
    and o: "set_order_ok order []"
  have "extend_matches fs ((print Scanning s)\<lparr>cwd := SCRAPE_A_GRAVE_PATH\<rparr>) patterns [] = []"
    using d n by (simp add: extend_matches_nothing glob_glob_in_cwd [of fs _ names])
  moreover have "order [] = []"
    using o by (simp add: set_order_ok_def)
  ultimately show "batch_transfer_all_csvs run order fs s =
          (Inr (), print NoCsvFound ((print Scanning s)\<lparr>cwd := SCRAPE_A_GRAVE_PATH\<rparr>))"
    using d by (simp add: batch_transfer_all_csvs_def find_state_csv_files_def
        find_present [of fs names])
qed

theorem missing_root_reported_before_dispatch_witness:
  "add_processed_csvs_to_queue (stateless (exits_1 ''FL'')) no_dirs (start home) =
     (Inr (), print (DirNotFound processed_csvs_path) (start home))
   \<and> batch_transfer_all_csvs (stateless (exits_1 ''FL'')) reversed_order no_dirs (start home) =
       (Inl (FileNotFoundError SCRAPE_A_GRAVE_PATH), print Scanning (start home))
   \<and> add_processed_csvs_to_queue (stateless (exits_1 ''FL'')) empty_dirs (start home) =
       (Inr (), print (Summary 0 0 0) (print (Found 0) (start home)))
   \<and> batch_transfer_all_csvs (stateless (exits_1 ''FL'')) reversed_order empty_dirs
        (start home) =
       (Inr (), print NoCsvFound ((print Scanning (start home))\<lparr>cwd := SCRAPE_A_GRAVE_PATH\<rparr>))"
proof -
  let ?run = "stateless (exits_1 ''FL'') :: unit runner"
  have h1: "no_dirs processed_csvs_path = None" "no_dirs SCRAPE_A_GRAVE_PATH = None"
    by (simp_all add: no_dirs_def)
  note t1 = missing_root_reported_before_dispatch
    [of no_dirs ?run "start home" reversed_order "''prog''" "[''readme.md'']"]
  note t2 = missing_root_reported_before_dispatch
    [of empty_dirs ?run "start home" reversed_order "''prog''" "[''readme.md'']"]
  have a: "add_processed_csvs_to_queue ?run no_dirs (start home) =
     (Inr (), print (DirNotFound processed_csvs_path) (start home))"
    using t1 h1 by blast
  have b: "batch_transfer_all_csvs ?run reversed_order no_dirs (start home) =
       (Inl (FileNotFoundError SCRAPE_A_GRAVE_PATH), print Scanning (start home))"
    using t1 h1 by blast
  have c: "add_processed_csvs_to_queue ?run empty_dirs (start home) =
       (Inr (), print (Summary 0 0 0) (print (Found 0) (start home)))"
    using t2 empty_dirs_processed readme_not_processed by blast
  have d: "batch_transfer_all_csvs ?run reversed_order empty_dirs (start home) =
       (Inr (), print NoCsvFound ((print Scanning (start home))\<lparr>cwd := SCRAPE_A_GRAVE_PATH\<rparr>))"
    using t2 empty_dirs_scrape readme_matches_nothing reversed_order_ok [of "[]"] by blast
  from a b c d show ?thesis by blast
qed

lemma processed_csv_has_delimiter: "is_processed_csv f \<Longrightarrow> py_in ''_'' f"
proof -
  assume "is_processed_csv f"
  then have "py_in ''_us_recent_deaths.csv'' f"
    by (simp add: is_processed_csv_def)
  moreover have "py_in ''_'' ''_us_recent_deaths.csv''"
    by simp
  ultimately show "py_in ''_'' f"
    using py_in_trans by blast
qed

section \<open>File names without a delimiter\<close>

text \<open>
  C8, as amended. A file name without an underscore never makes the resolution fail.
  In add-all-new-csvs.py such a file gets the fixed label UNK whatever its stem is: the
  stem is not tried as a code and no table is read; the file is still handed to the
  queue command. In add-processed-csvs-to-queue.py the split of such a name is the whole
  name, which is shown as it is when no entry has it as abbreviation; but that script
  only takes names that contain \<open>_us_recent_deaths.csv\<close>, so it never meets one.
\<close>

theorem no_delimiter_label:
  assumes "\<not> py_in ''_'' filename"
  shows "state_abbrev_of filename = ''UNK''
   \<and> (os_path_basename csv_file = filename \<longrightarrow>
        add_all run [csv_file] n m s =
          (case add_csv_to_queue run csv_file ''UNK'' (print (Processing filename) s) of
             (ok, s1) \<Rightarrow> if ok then (n + 1, m, s1) else (n, m + 1, s1))
        \<and> calls (snd (snd (add_all run [csv_file] n m s))) =
            calls s @
              [\<lparr>cmd = ''npm run queue:add -- '' @ dq @ csv_file @ dq, in_dir = cwd s\<rparr>])
   \<and> split_char CHR ''_'' filename = [filename]
   \<and> state_abbrev_processed filename = filename
   \<and> (state_info_of filename = None \<longrightarrow> state_name_of filename = filename)
   \<and> \<not> is_processed_csv filename"
proof (intro conjI impI)
  show u: "state_abbrev_of filename = ''UNK''"
    using assms by (simp add: state_abbrev_of_def)
  have c: "CHR ''_'' \<notin> set filename"
    using assms by (simp add: py_in_single)
  then show sp: "split_char CHR ''_'' filename = [filename]"
    by (rule split_char_absent)
  then show ab: "state_abbrev_processed filename = filename"
    by (simp add: state_abbrev_processed_def)
  show "\<not> is_processed_csv filename"
    using assms processed_csv_has_delimiter by blast
  show "state_name_of filename = filename" if "state_info_of filename = None"
    using that ab by (simp add: state_name_of_def)
  show "add_all run [csv_file] n m s =
          (case add_csv_to_queue run csv_file ''UNK'' (print (Processing filename) s) of
             (ok, s1) \<Rightarrow> if ok then (n + 1, m, s1) else (n, m + 1, s1))"
    if "os_path_basename csv_file = filename"
    using that u by (simp add: Let_def split: prod.splits)
  show "calls (snd (snd (add_all run [csv_file] n m s))) =
            calls s @
              [\<lparr>cmd = ''npm run queue:add -- '' @ dq @ csv_file @ dq, in_dir = cwd s\<rparr>]"
    by (simp del: add_all.simps)
qed

theorem no_delimiter_label_witness:
  "\<not> py_in ''_'' ''mystery.csv''
   \<and> state_abbrev_of ''mystery.csv'' = ''UNK''
   \<and> state_name_of ''mystery.csv'' = ''mystery.csv''
   \<and> calls (snd (snd (add_all (stateless (exits_1 ''FL''))
        [os_path_join processed_csvs_dir ''mystery.csv''] 0 0 (start home)))) =
      [\<lparr>cmd = ''npm run queue:add -- '' @ dq @ os_path_join processed_csvs_dir ''mystery.csv''
               @ dq,
        in_dir = home\<rparr>]"
proof -
  have h1: "\<not> py_in ''_'' ''mystery.csv''" by simp
  have h2: "os_path_basename (os_path_join processed_csvs_dir ''mystery.csv'') = ''mystery.csv''"
    by code_simp
  have h3: "state_info_of ''mystery.csv'' = None" by code_simp
  have e: "calls (start home) = []" "cwd (start home) = home" by (simp_all add: start_def)
  note t = no_delimiter_label [OF h1, of "os_path_join processed_csvs_dir ''mystery.csv''"
      "stateless (exits_1 ''FL'')" 0 0 "start home"]
  have a: "state_abbrev_of ''mystery.csv'' = ''UNK''"
    using t by blast
  have b: "state_name_of ''mystery.csv'' = ''mystery.csv''"
    using t h3 by blast
  have c: "calls (snd (snd (add_all (stateless (exits_1 ''FL''))
        [os_path_join processed_csvs_dir ''mystery.csv''] 0 0 (start home)))) =
      calls (start home) @
      [\<lparr>cmd = ''npm run queue:add -- '' @ dq @ os_path_join processed_csvs_dir ''mystery.csv''
               @ dq,
        in_dir = cwd (start home)\<rparr>]"
    using t h2 by blast
  show ?thesis
    using h1 a b c unfolding e by (simp del: add_all.simps)
qed

text \<open>
  C8 as first stated fails: the name \<open>FL.csv\<close> has no delimiter and its stem FL is a
  registered abbreviation, but add-all-new-csvs.py labels the file UNK; and the split
  in add-processed-csvs-to-queue.py yields the file name with its extension, which is
  shown as it is and not as Unknown.
\<close>

theorem no_delimiter_counterexample:
  "\<not> py_in ''_'' ''FL.csv''
   \<and> path_stem ''FL.csv'' = ''FL''
   \<and> st ''FL'' ''Florida'' ''state_11'' \<in> set states_all
   \<and> state_abbrev_of ''FL.csv'' = ''UNK''
   \<and> state_abbrev_processed ''mystery.csv'' = ''mystery.csv''
   \<and> path_stem ''mystery.csv'' = ''mystery''
   \<and> state_name_of ''mystery.csv'' = ''mystery.csv''"
  by code_simp

lemma show_queue_status_cwd [simp]: "cwd (snd (show_queue_status run s)) = cwd s"
  by (cases "fst (run \<lparr>cmd = ''npm run queue:status'', in_dir = CTBAL_PROJECT_PATH\<rparr>
                  (world (print CheckingStatus s)))")
     (simp_all add: show_queue_status_def subprocess_run_eq)

lemma process_queue_cwd [simp]: "cwd (snd (process_queue run s)) = cwd s"
  by (cases "fst (run \<lparr>cmd = ''npm run queue:process-all'', in_dir = CTBAL_PROJECT_PATH\<rparr>
                  (world (print ProcessingQueue s)))")
     (simp_all add: process_queue_def subprocess_run_eq)

lemma batch_cwd:
  "fs SCRAPE_A_GRAVE_PATH = Some (Dir names) \<Longrightarrow>
   cwd (snd (batch_transfer_all_csvs run order fs s)) = SCRAPE_A_GRAVE_PATH
   \<and> fst (batch_transfer_all_csvs run order fs s) = Inr ()"
  by (simp add: batch_transfer_all_csvs_def find_state_csv_files_def
        find_present [of fs names] Let_def split_beta)

lemma extend_matches_concat:
  "fs d = Some (Dir names) \<Longrightarrow>
   extend_matches fs (s\<lparr>cwd := d\<rparr>) ps acc = acc @ concat (map (glob1 names) ps)"
  by (induction ps arbitrary: acc) (simp_all add: glob_glob_def)

section \<open>The current working directory after locating\<close>

text \<open>
  C10. When the source directory exists, \<open>find_state_csv_files\<close> leaves the process in
  that directory, wherever it was started: the patterns are matched against the names
  of that directory, and the directory is still the current one when
  \<open>batch_transfer_all_csvs\<close> and the \<open>transfer\<close> and \<open>full\<close> commands of \<open>main\<close> return,
  so a relative name made absolute afterwards is joined to it.
\<close>

theorem locate_changes_working_directory:
  assumes "fs SCRAPE_A_GRAVE_PATH = Some (Dir names)"
  shows "cwd (snd (find_state_csv_files order fs s)) = SCRAPE_A_GRAVE_PATH
   \<and> fst (find_state_csv_files order fs s) =
       Inr (map (os_path_join SCRAPE_A_GRAVE_PATH)
              (order (extend_matches fs (s\<lparr>cwd := SCRAPE_A_GRAVE_PATH\<rparr>) patterns [])))
   \<and> extend_matches fs (s\<lparr>cwd := SCRAPE_A_GRAVE_PATH\<rparr>) patterns [] =
       concat (map (glob1 names) patterns)
   \<and> cwd (snd (batch_transfer_all_csvs run order fs s)) = SCRAPE_A_GRAVE_PATH
   \<and> cwd (snd (main run order fs [prog, ''transfer''] s)) = SCRAPE_A_GRAVE_PATH
   \<and> cwd (snd (main run order fs [prog, ''full''] s)) = SCRAPE_A_GRAVE_PATH
   \<and> os_path_abspath (snd (main run order fs [prog, ''full''] s)) f =
       os_path_join SCRAPE_A_GRAVE_PATH f"
proof (intro conjI)
  show "cwd (snd (find_state_csv_files order fs s)) = SCRAPE_A_GRAVE_PATH"
    using assms by (simp add: find_state_csv_files_def find_present [of fs names])
  show "fst (find_state_csv_files order fs s) =
       Inr (map (os_path_join SCRAPE_A_GRAVE_PATH)
              (order (extend_matches fs (s\<lparr>cwd := SCRAPE_A_GRAVE_PATH\<rparr>) patterns [])))"
    using assms by (simp add: find_state_csv_files_def find_present [of fs names])
  show "extend_matches fs (s\<lparr>cwd := SCRAPE_A_GRAVE_PATH\<rparr>) patterns [] =
       concat (map (glob1 names) patterns)"
    using assms by (simp add: extend_matches_concat [of fs _ names])
  show b: "cwd (snd (batch_transfer_all_csvs run order fs t)) = SCRAPE_A_GRAVE_PATH" for t
    using batch_cwd [of fs names] assms by blast
  show "cwd (snd (main run order fs [prog, ''transfer''] s)) = SCRAPE_A_GRAVE_PATH"
    by (simp add: main_def lower_def lower_char_def b)
  have r: "fst (batch_transfer_all_csvs run order fs t) = Inr ()" for t
    using batch_cwd [of fs names] assms by blast
  show m: "cwd (snd (main run order fs [prog, ''full''] s)) = SCRAPE_A_GRAVE_PATH"
    using r [of "print FullPipeline s"] b [of "print FullPipeline s"]
    by (cases "batch_transfer_all_csvs run order fs (print FullPipeline s)")
       (simp add: main_def lower_def lower_char_def Let_def)
  show "os_path_abspath (snd (main run order fs [prog, ''full''] s)) f =
       os_path_join SCRAPE_A_GRAVE_PATH f"
    by (simp add: os_path_abspath_def m)
qed

theorem locate_changes_working_directory_witness:
  "cwd (start home) = home \<and> home \<noteq> SCRAPE_A_GRAVE_PATH
   \<and> cwd (snd (find_state_csv_files reversed_order scrape_dir (start home))) =
       SCRAPE_A_GRAVE_PATH
   \<and> cwd (snd (main (stateless (exits_1 ''FL'')) reversed_order scrape_dir
        [''ctbal-scrape-integration.py'', ''full''] (start home))) = SCRAPE_A_GRAVE_PATH"
proof -
  have "cwd (start home) = home" by (simp add: start_def)
  moreover have "home \<noteq> SCRAPE_A_GRAVE_PATH"
    by (simp add: home_def SCRAPE_A_GRAVE_PATH_def)
  ultimately show ?thesis
    using locate_changes_working_directory [of scrape_dir
        "[''notes.txt'', ''deaths_texas_deaths.csv'', ''ohio_deaths.csv'', ''mortality_utah.csv'']"
        reversed_order "start home" "stateless (exits_1 ''FL'')"
        "''ctbal-scrape-integration.py''"]
      scrape_dir_listing
    by blast
qed

end
